theory Spec2Isabelle
  imports Complex_Main "HOL-Library.Char_ord" "HOL-Library.List_Lexorder"
begin

section \<open>Data model\<close>

text \<open>
  The program is a pandas pipeline over the Olist e-commerce tables. A DataFrame is
  modelled as the list of its rows, in row order, each row a record of the columns the
  program reads or writes. A cell that pandas holds as NaN, None or NaT is \<open>None\<close>.

  Modelling conventions, fixed here once:
  \<^item> The order status and the identifiers that are only compared for equality are
    strings. The customer-unique identifier, by which the groups are sorted, has any
    linearly ordered type \<open>'k\<close>: text (in lexicographic order, as Python compares \<open>str\<close>)
    or integers, whichever \<open>pd.read_csv\<close> infers for the column.
  \<^item> A parsed timestamp (\<open>datetime64[ns]\<close>) is the integer number of nanoseconds since the
    epoch. The finite range of the pandas type is not modelled.
  \<^item> Prices, freight values, sums of them, ranks and quantile edges are \<open>float64\<close> in
    pandas and rationals here. Sums are exact. The rounding of an interpolated quantile
    edge is a parameter \<open>fl\<close> of the scoring (see \<open>quantile\<close>).
\<close>

type_synonym timestamp = int

datatype error =
    ValueError | FileNotFoundError | PermissionError | IsADirectoryError
  | EmptyDataError | ParserError | UnicodeDecodeError

text \<open>
  The rows of the three input tables and of the tables the Loader builds from them. Only
  the columns the program uses are kept; the columns of the items and customers tables
  carry the name of their table as a prefix, since field names are global. The three
  date columns have type \<open>'t\<close>: text as read from the CSV file (\<open>string option\<close>)
  before \<open>clean_data\<close>, a timestamp or NaT (\<open>timestamp option\<close>) after it. A joined
  row extends the left row by the columns of the right table.
\<close>

record 't orders_row =
  order_id :: "string option"
  customer_id :: "string option"
  order_status :: "string option"
  order_purchase_timestamp :: 't
  order_approved_at :: 't
  order_delivered_customer_date :: 't

record items_row =
  items_order_id :: "string option"
  items_price :: "rat option"
  items_freight_value :: "rat option"

record 'k customers_row =
  customers_customer_id :: "string option"
  customers_customer_unique_id :: "'k option"

text \<open>A row of \<open>temp\<close>, orders joined with items.\<close>

record 't temp_row = "'t orders_row" +
  price :: "rat option"
  freight_value :: "rat option"

text \<open>A row of \<open>df_master\<close>, the merged table.\<close>

record ('t, 'k) txn = "'t temp_row" +
  customer_unique_id :: "'k option"

text \<open>A row of the cleaned table: the merged row and the new column \<open>total_value\<close>.\<close>

record ('t, 'k) cleaned = "('t, 'k) txn" +
  total_value :: "rat option"

section \<open>Loader: \<open>load_and_merge_raw_data\<close>\<close>

text \<open>
  What \<open>pd.read_csv\<close> does at the path of one CSV file: it raises an exception, or it
  returns the table it read. It raises \<open>FileNotFoundError\<close> when there is no file,
  \<open>PermissionError\<close> when the file may not be read, \<open>IsADirectoryError\<close> when the path is
  a directory, and \<open>EmptyDataError\<close>, \<open>ParserError\<close> or \<open>UnicodeDecodeError\<close> when the
  file opens but is not a CSV table. A table that is read is taken to have the required
  columns. The argument of the model is the state of the three files under
  \<open>raw_data_path\<close>, named after the files; the joining of the directory and the file
  names is not modelled.
\<close>

datatype 'a source = Raises error | Readable 'a

record 'k sources =
  olist_orders_dataset :: "string option orders_row list source"
  olist_order_items_dataset :: "items_row list source"
  olist_customers_dataset :: "'k customers_row list source"

definition read_csv :: "'a source \<Rightarrow> error + 'a" where
  "read_csv f = (case f of Raises e \<Rightarrow> Inl e | Readable t \<Rightarrow> Inr t)"

text \<open>
  \<open>left.merge(right, on='order_id', how='left')\<close>: every left row, in order, once for
  each right row with the same key, or once with null right columns when there is none.
  pandas matches a null key with a null key, as equality of \<open>option\<close> values does.
\<close>

definition merge_left ::
  "string option orders_row list \<Rightarrow> items_row list \<Rightarrow> string option temp_row list" where
  "merge_left left right =
     concat (map (\<lambda>l.
       let ms = filter (\<lambda>r. items_order_id r = order_id l) right in
       if ms = [] then [orders_row.extend l (temp_row.fields None None)]
       else map (\<lambda>r. orders_row.extend l
                        (temp_row.fields (items_price r) (items_freight_value r))) ms) left)"

text \<open>
  \<open>left.merge(right, on='customer_id', how='inner')\<close>: a left row once for each right
  row with the same key; a left row without one is dropped.
\<close>

definition merge_inner ::
  "string option temp_row list \<Rightarrow> 'k customers_row list \<Rightarrow> (string option, 'k) txn list" where
  "merge_inner left right =
     concat (map (\<lambda>l.
       map (\<lambda>r. temp_row.extend l (txn.fields (customers_customer_unique_id r)))
           (filter (\<lambda>r. customers_customer_id r = customer_id l) right)) left)"

text \<open>The body of the \<open>try\<close> block: three reads in order, then the two merges.\<close>

definition load_body :: "'k sources \<Rightarrow> error + (string option, 'k) txn list" where
  "load_body fs =
     (case read_csv (olist_orders_dataset fs) of Inl e \<Rightarrow> Inl e | Inr df_orders \<Rightarrow>
     (case read_csv (olist_order_items_dataset fs) of Inl e \<Rightarrow> Inl e | Inr df_items \<Rightarrow>
     (case read_csv (olist_customers_dataset fs) of Inl e \<Rightarrow> Inl e | Inr df_cust \<Rightarrow>
        (let temp = merge_left df_orders df_items;
             df_master = merge_inner temp df_cust
         in Inr df_master))))"

text \<open>
  The whole function. \<open>Inr (Some df)\<close> is the returned table, \<open>Inr None\<close> is the return
  of \<open>None\<close> from the handler of \<open>FileNotFoundError\<close>, and \<open>Inl e\<close> is an exception that
  the handler does not catch and that leaves the function. None of the other exceptions
  of \<open>read_csv\<close> is a subclass of \<open>FileNotFoundError\<close>.
\<close>

definition load_and_merge_raw_data :: "'k sources \<Rightarrow> error + (string option, 'k) txn list option" where
  "load_and_merge_raw_data fs =
     (case load_body fs of
        Inr df_master \<Rightarrow> Inr (Some df_master)
      | Inl e \<Rightarrow> (if e = FileNotFoundError then Inr None else Inl e))"

section \<open>Cleaner: \<open>clean_data\<close>\<close>

text \<open>
  \<open>pd.to_datetime(column, errors='coerce')\<close>. The parser of the library is a parameter
  \<open>parse\<close>: it receives the whole column as context (pandas infers one format per column)
  and the text of one cell, and returns \<open>None\<close> for text it cannot parse. A null cell
  becomes NaT. The result has one cell for each cell of the column.
\<close>

type_synonym parser = "string option list \<Rightarrow> string \<Rightarrow> timestamp option"

definition to_datetime :: "parser \<Rightarrow> string option list \<Rightarrow> timestamp option list" where
  "to_datetime parse col = map (\<lambda>c. case c of None \<Rightarrow> None | Some s \<Rightarrow> parse col s) col"

text \<open>
  Step 1 of \<open>clean_data\<close>: the loop over \<open>date_cols\<close> replaces each of the three date
  columns by its conversion; every other column is kept.
\<close>

definition set_date_cols ::
  "(string option, 'k) txn \<Rightarrow> timestamp option \<times> timestamp option \<times> timestamp option
     \<Rightarrow> (timestamp option, 'k) txn" where
  "set_date_cols r c =
     \<lparr>order_id = order_id r, customer_id = customer_id r, order_status = order_status r,
      order_purchase_timestamp = fst c,
      order_approved_at = fst (snd c),
      order_delivered_customer_date = snd (snd c),
      price = price r, freight_value = freight_value r,
      customer_unique_id = customer_unique_id r\<rparr>"

definition convert_dates ::
  "parser \<Rightarrow> (string option, 'k) txn list \<Rightarrow> (timestamp option, 'k) txn list" where
  "convert_dates parse df =
     (let purchase = to_datetime parse (map order_purchase_timestamp df);
          approved = to_datetime parse (map order_approved_at df);
          delivered = to_datetime parse (map order_delivered_customer_date df)
      in map2 set_date_cols df (zip purchase (zip approved delivered)))"

text \<open>\<open>Series.fillna(v)\<close> on one cell, and the sum of two float cells (NaN is absorbing).\<close>

definition fillna :: "'a \<Rightarrow> 'a option \<Rightarrow> 'a option" where
  "fillna v c = (case c of None \<Rightarrow> Some v | Some x \<Rightarrow> Some x)"

definition add_cells :: "rat option \<Rightarrow> rat option \<Rightarrow> rat option" where
  "add_cells a b = (case a of None \<Rightarrow> None | Some x \<Rightarrow> (case b of None \<Rightarrow> None | Some y \<Rightarrow> Some (x + y)))"

definition clean_data ::
  "parser \<Rightarrow> (string option, 'k) txn list \<Rightarrow> (timestamp option, 'k) cleaned list" where
  "clean_data parse df =
     (let df_clean = df;
          df_clean = convert_dates parse df_clean;
          df_clean = filter (\<lambda>r. order_status r = Some ''delivered'') df_clean;
          df_clean = filter (\<lambda>r. order_purchase_timestamp r \<noteq> None \<and> customer_unique_id r \<noteq> None) df_clean;
          df_clean = map (\<lambda>r. r\<lparr>price := fillna 0 (price r)\<rparr>) df_clean;
          df_clean = map (\<lambda>r. r\<lparr>freight_value := fillna 0 (freight_value r)\<rparr>) df_clean
      in map (\<lambda>r. txn.extend r (cleaned.fields (add_cells (price r) (freight_value r)))) df_clean)"

text \<open>
  The Cleaner as the specification words it, on one row of the merged table and the
  three parsed dates of the row: the row is dropped unless it is delivered and has a
  purchase timestamp and a customer-unique identifier; a kept row keeps its identifiers
  and status, carries the parsed dates, has its null price and freight coerced to 0 and
  gets the total value of the coerced price and freight.
\<close>

definition coerce0 :: "rat option \<Rightarrow> rat" where
  "coerce0 c = (case c of None \<Rightarrow> 0 | Some x \<Rightarrow> x)"

definition cleaner_row ::
  "(string option, 'k) txn \<Rightarrow> timestamp option \<Rightarrow> timestamp option \<Rightarrow> timestamp option
     \<Rightarrow> (timestamp option, 'k) cleaned option" where
  "cleaner_row r purchase approved delivered =
     (if order_status r = Some ''delivered'' \<and> purchase \<noteq> None \<and> customer_unique_id r \<noteq> None
      then Some \<lparr>order_id = order_id r, customer_id = customer_id r,
             order_status = order_status r,
             order_purchase_timestamp = purchase,
             order_approved_at = approved,
             order_delivered_customer_date = delivered,
             price = Some (coerce0 (price r)), freight_value = Some (coerce0 (freight_value r)),
             customer_unique_id = customer_unique_id r,
             total_value = Some (coerce0 (price r) + coerce0 (freight_value r))\<rparr>
      else None)"

section \<open>RFM Aggregator: \<open>calculate_rfm_metrics\<close>\<close>

subsection \<open>Library operations on columns\<close>

text \<open>The non-null cells of a column, in order.\<close>

definition dropna :: "'a option list \<Rightarrow> 'a list" where
  "dropna col = map the (filter (\<lambda>c. c \<noteq> None) col)"

text \<open>\<open>Series.max()\<close> of a timestamp column: nulls are skipped; NaT when nothing is left.\<close>

definition series_max :: "timestamp option list \<Rightarrow> timestamp option" where
  "series_max col = (let vs = dropna col in if vs = [] then None else Some (Max (set vs)))"

text \<open>\<open>nunique\<close>: the number of distinct non-null cells.\<close>

definition nunique :: "'a option list \<Rightarrow> int" where
  "nunique col = int (length (remdups (dropna col)))"

text \<open>The group-wise \<open>sum\<close>: null cells are skipped.\<close>

definition nansum :: "rat option list \<Rightarrow> rat" where
  "nansum col = sum_list (dropna col)"

text \<open>
  One day as a \<open>timedelta\<close>, in nanoseconds, and the \<open>days\<close> attribute of a time
  difference: the whole days in it, rounded down.
\<close>

definition day_ns :: int where
  "day_ns = 86400000000000"

definition days :: "int \<Rightarrow> int" where
  "days delta = delta div day_ns"

subsection \<open>Aggregation (lines 89 to 99)\<close>

text \<open>
  A row of \<open>rfm\<close> after \<open>reset_index\<close> and the renaming of the columns. Its column
  \<open>customer_unique_id\<close> is the field \<open>rfm_customer_unique_id\<close>, since the name is taken
  by the field of the transaction rows.
\<close>

record 'k rfm_metrics =
  rfm_customer_unique_id :: 'k
  Recency :: "int option"
  Frequency :: int
  Monetary :: rat

text \<open>
  \<open>present_date\<close>: the latest purchase timestamp of the whole table plus one day; NaT
  when the table has no purchase timestamp at all.
\<close>

definition present_date :: "(timestamp option, 'k, 'z) cleaned_scheme list \<Rightarrow> timestamp option" where
  "present_date df = map_option (\<lambda>m. m + day_ns) (series_max (map order_purchase_timestamp df))"

text \<open>
  \<open>groupby('customer_unique_id')\<close>: the groups are the distinct non-null keys in
  sorted order (the defaults \<open>sort=True\<close> and \<open>dropna=True\<close>); a group holds the rows of
  its key in table order.
\<close>

definition group_keys :: "(timestamp option, 'k::linorder, 'z) cleaned_scheme list \<Rightarrow> 'k list" where
  "group_keys df = sort (remdups (dropna (map customer_unique_id df)))"

definition get_group ::
  "'k \<Rightarrow> (timestamp option, 'k, 'z) cleaned_scheme list \<Rightarrow> (timestamp option, 'k, 'z) cleaned_scheme list" where
  "get_group k df = filter (\<lambda>r. customer_unique_id r = Some k) df"

text \<open>
  The lambda that aggregates the purchase timestamps of one group,
  \<open>(present_date - x.max()).days\<close>. A difference with NaT is NaT, whose \<open>days\<close> is NaN.
\<close>

definition recency_of :: "timestamp option \<Rightarrow> timestamp option list \<Rightarrow> int option" where
  "recency_of present x =
     (case present of None \<Rightarrow> None
      | Some p \<Rightarrow> (case series_max x of None \<Rightarrow> None | Some m \<Rightarrow> Some (days (p - m))))"

definition rfm_aggregate ::
  "(timestamp option, 'k::linorder, 'z) cleaned_scheme list \<Rightarrow> 'k rfm_metrics list" where
  "rfm_aggregate df =
     (let present = present_date df
      in map (\<lambda>k. let g = get_group k df in
               \<lparr>rfm_customer_unique_id = k,
                Recency = recency_of present (map order_purchase_timestamp g),
                Frequency = nunique (map order_id g),
                Monetary = nansum (map total_value g)\<rparr>)
             (group_keys df))"

subsection \<open>Scoring (lines 101 to 116)\<close>

text \<open>
  \<open>Series.rank(method='first')\<close>: the rank of a cell is its position, counted from 1, in
  the stable ascending sort of the column, so equal cells are ranked in row order: the
  cells smaller than it come first, then the equal cells of the rows before it.
\<close>

definition rank_pos :: "int list \<Rightarrow> nat \<Rightarrow> nat" where
  "rank_pos col i =
     1 + length (filter (\<lambda>v. v < col ! i) col) + length (filter (\<lambda>v. v = col ! i) (take i col))"

definition rank_first :: "int list \<Rightarrow> rat list" where
  "rank_first col = map (\<lambda>i. of_nat (rank_pos col i)) [0..<length col]"

text \<open>
  The rounding of a real number to \<open>float64\<close>. It is a parameter of the scoring: the
  identity gives exact arithmetic.
\<close>

type_synonym rounding = "rat \<Rightarrow> rat"

definition exact :: rounding where
  "exact x = x"

text \<open>
  \<open>Series.quantile(q)\<close> with the default linear interpolation, on the sorted non-null
  values \<open>s\<close> (not empty): the value at the position \<open>q * (n - 1)\<close>. At a whole position
  it is the value at that position; between two positions it is interpolated, and the
  result is rounded. The library rounds after each operation of the interpolation; the
  model rounds the exact result once.
\<close>

definition quantile :: "rounding \<Rightarrow> rat list \<Rightarrow> rat \<Rightarrow> rat" where
  "quantile fl s q =
     (let n = length s;
          pos = q * of_nat (n - 1);
          lo = nat \<lfloor>pos\<rfloor>;
          hi = min (lo + 1) (n - 1);
          frac = pos - of_nat lo
      in if frac = 0 then s ! lo else fl (s ! lo + (s ! hi - s ! lo) * frac))"

text \<open>The bin edges of \<open>qcut\<close>: the quantiles at \<open>linspace(0, 1, q + 1)\<close>.\<close>

definition qcut_bins :: "rounding \<Rightarrow> rat list \<Rightarrow> nat \<Rightarrow> rat list" where
  "qcut_bins fl s q = map (\<lambda>k. quantile fl s (of_nat k / of_nat q)) [0..<q + 1]"

text \<open>
  The quintile edges written out, for stating what \<open>qcut_bins\<close> computes for \<open>q = 5\<close>:
  edge \<open>k\<close> of the sorted values \<open>s\<close> lies at position \<open>k * (n - 1) / 5\<close>, that is
  \<open>j\<close> fifths after the whole position \<open>lo\<close>.
\<close>

definition quintile_edge :: "rounding \<Rightarrow> rat list \<Rightarrow> nat \<Rightarrow> rat" where
  "quintile_edge fl s k =
     (let lo = (k * (length s - 1)) div 5;
          j = (k * (length s - 1)) mod 5
      in if j = 0 then s ! lo
         else fl (s ! lo + (s ! (lo + 1) - s ! lo) * (of_nat j / 5)))"

text \<open>\<open>bins.searchsorted(v, side='left')\<close> on ascending edges: the number of edges below \<open>v\<close>.\<close>

definition searchsorted_left :: "rat list \<Rightarrow> rat \<Rightarrow> nat" where
  "searchsorted_left bins v = length (takeWhile (\<lambda>b. b < v) bins)"

text \<open>
  The label of one non-null value: its bin is found by \<open>searchsorted\<close>, the lowest edge
  belongs to the first bin (\<open>include_lowest\<close>), and a value outside every bin gets NaN.
\<close>

definition cut_label :: "rat list \<Rightarrow> int list \<Rightarrow> rat \<Rightarrow> int option" where
  "cut_label bins labels v =
     (let ids = searchsorted_left bins v;
          ids = (if v = bins ! 0 then 1 else ids)
      in if ids = length bins \<or> ids = 0 then None else Some (labels ! (ids - 1)))"


text \<open>
  \<open>pd.qcut(x, q, labels)\<close> with the default \<open>duplicates='raise'\<close>. The edges are the
  quantiles of the non-null values. When two edges coincide the library raises
  \<open>ValueError\<close> (bin edges must be unique); without any non-null value every edge is NaN,
  which raises the same error. The library also raises \<open>ValueError\<close> unless there is one
  label for each bin. A null value is labelled NaN.
\<close>

definition qcut ::
  "rounding \<Rightarrow> rat option list \<Rightarrow> nat \<Rightarrow> int list \<Rightarrow> error + int option list" where
  "qcut fl x q labels =
     (let s = sort (dropna x) in
      if s = [] then Inl ValueError
      else let bins = qcut_bins fl s q in
        if \<not> distinct bins then Inl ValueError
        else if length labels \<noteq> length bins - 1 then Inl ValueError
        else Inr (map (\<lambda>c. case c of None \<Rightarrow> None | Some v \<Rightarrow> cut_label bins labels v) x))"

text \<open>\<open>astype(int)\<close> of a score column: a NaN score cannot be converted.\<close>

definition astype_int :: "int option list \<Rightarrow> error + int list" where
  "astype_int col = (if None \<in> set col then Inl ValueError else Inr (map the col))"

record 'k rfm_scored = "'k rfm_metrics" +
  R_Score :: int
  F_Score :: int
  M_Score :: int
  RFM_Score_Sum :: int

definition add_scores :: "'k rfm_metrics \<Rightarrow> int \<times> int \<times> int \<Rightarrow> 'k rfm_scored" where
  "add_scores g sc =
     rfm_metrics.extend g
       (rfm_scored.fields (fst sc) (fst (snd sc)) (snd (snd sc))
          (fst sc + fst (snd sc) + snd (snd sc)))"

definition labels_best_high :: "int list" where
  "labels_best_high = [1, 2, 3, 4, 5]"

definition labels_best_low :: "int list" where
  "labels_best_low = [5, 4, 3, 2, 1]"

text \<open>
  The three score columns, in the order the source computes them; the first failure
  ends the run.
\<close>

definition score_columns ::
  "rounding \<Rightarrow> 'k rfm_metrics list \<Rightarrow> error + (int list \<times> int list \<times> int list)" where
  "score_columns fl rfm =
     (case qcut fl (map (map_option of_int \<circ> Recency) rfm) 5 labels_best_low of
        Inl e \<Rightarrow> Inl e
      | Inr r_score \<Rightarrow>
     (case qcut fl (map Some (rank_first (map Frequency rfm))) 5 labels_best_high of
        Inl e \<Rightarrow> Inl e
      | Inr f_score \<Rightarrow>
     (case qcut fl (map (Some \<circ> Monetary) rfm) 5 labels_best_high of
        Inl e \<Rightarrow> Inl e
      | Inr m_score \<Rightarrow>
     (case astype_int r_score of Inl e \<Rightarrow> Inl e | Inr r \<Rightarrow>
     (case astype_int f_score of Inl e \<Rightarrow> Inl e | Inr f \<Rightarrow>
     (case astype_int m_score of Inl e \<Rightarrow> Inl e | Inr m \<Rightarrow> Inr (r, f, m)))))))"

definition calculate_rfm_metrics ::
  "rounding \<Rightarrow> (timestamp option, 'k::linorder, 'z) cleaned_scheme list
     \<Rightarrow> error + 'k rfm_scored list" where
  "calculate_rfm_metrics fl df =
     (let rfm = rfm_aggregate df in
      case score_columns fl rfm of
        Inl e \<Rightarrow> Inl e
      | Inr (r, f, m) \<Rightarrow> Inr (map2 add_scores rfm (zip r (zip f m))))"

section \<open>Segmenter: \<open>segment_customers\<close>\<close>

text \<open>
  The inner function \<open>_categorize\<close> of \<open>segment_customers\<close> (an Isabelle name cannot
  start with an underscore). The score is a Python integer; the branches are tried
  top-down as in the source.
\<close>

definition categorize :: "int \<Rightarrow> string" where
  "categorize score =
     (if score \<ge> 12 then ''Gold''
      else if score \<ge> 8 then ''Silver''
      else ''Bronze'')"

text \<open>
  The ranking of the tiers named by the specification (Gold above Silver above Bronze),
  used to state monotonicity. Any other label has rank 0.
\<close>

definition tier_rank :: "string \<Rightarrow> nat" where
  "tier_rank s =
     (if s = ''Gold'' then 3 else if s = ''Silver'' then 2 else if s = ''Bronze'' then 1 else 0)"

record 'k rfm_segmented = "'k rfm_scored" +
  Segment :: string

text \<open>The table returned by \<open>segment_customers\<close>: every row with the new column.\<close>

definition segment_customers :: "'k rfm_scored list \<Rightarrow> 'k rfm_segmented list" where
  "segment_customers rfm_df =
     map (\<lambda>r. rfm_scored.extend r (rfm_segmented.fields (categorize (RFM_Score_Sum r)))) rfm_df"

section \<open>Tables as objects\<close>

text \<open>
  A DataFrame is a mutable object and a stage receives a reference to it. To state what a
  stage does to the table of its caller, the stages are also given on a heap of table
  objects: a reference is an address, a fresh object is allocated at the end of the heap,
  and an assignment to a column of an existing DataFrame replaces the object at its
  address. Objects that are unreachable when a stage returns (the intermediate copies
  inside \<open>clean_data\<close>, the table under construction when scoring raises) are not kept.
  A stage on the heap is defined for an argument that refers to a table of the stage's
  input type; the result \<open>None\<close> marks every other call, which is not modelled.
\<close>

datatype 'k frame =
    Merged "(string option, 'k) txn list"
  | Cleaned "(timestamp option, 'k) cleaned list"
  | Scored "'k rfm_scored list"
  | Segmented "'k rfm_segmented list"

type_synonym ref = nat
type_synonym 'k heap = "'k frame list"

definition alloc :: "'k heap \<Rightarrow> 'k frame \<Rightarrow> 'k heap \<times> ref" where
  "alloc h f = (h @ [f], length h)"

definition lookup :: "'k heap \<Rightarrow> ref \<Rightarrow> 'k frame option" where
  "lookup h r = (if r < length h then Some (h ! r) else None)"

definition assign :: "'k heap \<Rightarrow> ref \<Rightarrow> 'k frame \<Rightarrow> 'k heap" where
  "assign h r f = h[r := f]"

text \<open>
  \<open>clean_data\<close>: \<open>df.copy()\<close> makes a new object, and the filters make new objects
  again; all column assignments go to these. The last of them is returned.
\<close>

definition clean_data_obj :: "parser \<Rightarrow> 'k heap \<Rightarrow> ref \<Rightarrow> ('k heap \<times> ref) option" where
  "clean_data_obj parse h df =
     (case lookup h df of
        Some (Merged rows) \<Rightarrow> Some (alloc h (Cleaned (clean_data parse rows)))
      | _ \<Rightarrow> None)"

text \<open>
  \<open>calculate_rfm_metrics\<close>: \<open>groupby(...).agg(...).reset_index()\<close> makes the new
  table \<open>rfm\<close>; the score columns are assigned to it and it is returned. An exception
  leaves the function without a result.
\<close>

definition calculate_rfm_metrics_obj ::
  "rounding \<Rightarrow> 'k::linorder heap \<Rightarrow> ref \<Rightarrow> ('k heap \<times> (error + ref)) option" where
  "calculate_rfm_metrics_obj fl h df =
     (case lookup h df of
        Some (Cleaned rows) \<Rightarrow>
          Some (case calculate_rfm_metrics fl rows of
                  Inl e \<Rightarrow> (h, Inl e)
                | Inr rfm \<Rightarrow> (let (h', r) = alloc h (Scored rfm) in (h', Inr r)))
      | _ \<Rightarrow> None)"

text \<open>
  \<open>segment_customers\<close>: \<open>rfm_df['Segment'] = ...\<close> assigns the new column to the object
  passed in, and \<open>return rfm_df\<close> returns the same reference.
\<close>

definition segment_customers_obj :: "'k heap \<Rightarrow> ref \<Rightarrow> ('k heap \<times> ref) option" where
  "segment_customers_obj h rfm_df =
     (case lookup h rfm_df of
        Some (Scored rows) \<Rightarrow> Some (assign h rfm_df (Segmented (segment_customers rows)), rfm_df)
      | _ \<Rightarrow> None)"

section \<open>Example tables\<close>

text \<open>
  A small merged table used to evaluate the stages: an order with two line items, a
  canceled order, a delivered order without items (null price and freight), and a
  delivered order whose purchase date does not parse. The example parser knows two dates,
  given in nanoseconds since the epoch.
\<close>

definition example_parse :: parser where
  "example_parse col s =
     (if s = ''2024-01-01'' then Some 1704067200000000000
      else if s = ''2024-01-02'' then Some 1704153600000000000
      else None)"

definition example_row ::
  "string \<Rightarrow> string \<Rightarrow> string \<Rightarrow> string \<Rightarrow> rat option \<Rightarrow> rat option \<Rightarrow> string \<Rightarrow> (string option, string) txn" where
  "example_row oid cid status date p f uid =
     \<lparr>order_id = Some oid, customer_id = Some cid, order_status = Some status,
      order_purchase_timestamp = Some date, order_approved_at = None,
      order_delivered_customer_date = None, price = p, freight_value = f,
      customer_unique_id = Some uid\<rparr>"

definition example_master :: "(string option, string) txn list" where
  "example_master =
     [example_row ''1'' ''A'' ''delivered'' ''2024-01-01'' (Some 100) (Some 10) ''U1'',
      example_row ''1'' ''A'' ''delivered'' ''2024-01-01'' (Some 50) (Some 5) ''U1'',
      example_row ''2'' ''B'' ''canceled'' ''2024-01-02'' (Some 30) (Some 3) ''U2'',
      example_row ''3'' ''C'' ''delivered'' ''2024-01-02'' None None ''U3'',
      example_row ''4'' ''D'' ''delivered'' ''not a date'' (Some 7) (Some 1) ''U4'']"

definition example_clean_row ::
  "string \<Rightarrow> string \<Rightarrow> timestamp \<Rightarrow> rat \<Rightarrow> rat \<Rightarrow> 'k \<Rightarrow> (timestamp option, 'k) cleaned" where
  "example_clean_row oid cid t p f uid =
     \<lparr>order_id = Some oid, customer_id = Some cid, order_status = Some ''delivered'',
      order_purchase_timestamp = Some t, order_approved_at = None,
      order_delivered_customer_date = None, price = Some p, freight_value = Some f,
      customer_unique_id = Some uid, total_value = Some (p + f)\<rparr>"

definition example_cleaned :: "(timestamp option, string) cleaned list" where
  "example_cleaned =
     [example_clean_row ''1'' ''A'' 1704067200000000000 100 10 ''U1'',
      example_clean_row ''1'' ''A'' 1704067200000000000 50 5 ''U1'',
      example_clean_row ''3'' ''C'' 1704153600000000000 0 0 ''U3'']"

text \<open>The scored table of the example, and the table the Segmenter returns for it.\<close>

definition example_scored :: "string rfm_scored list" where
  "example_scored =
     [\<lparr>rfm_customer_unique_id = ''U1'', Recency = Some 2, Frequency = 1, Monetary = 165,
       R_Score = 1, F_Score = 1, M_Score = 5, RFM_Score_Sum = 7\<rparr>,
      \<lparr>rfm_customer_unique_id = ''U3'', Recency = Some 1, Frequency = 1, Monetary = 0,
       R_Score = 5, F_Score = 5, M_Score = 1, RFM_Score_Sum = 11\<rparr>]"

definition example_segmented :: "string rfm_segmented list" where
  "example_segmented =
     [\<lparr>rfm_customer_unique_id = ''U1'', Recency = Some 2, Frequency = 1, Monetary = 165,
       R_Score = 1, F_Score = 1, M_Score = 5, RFM_Score_Sum = 7, Segment = ''Bronze''\<rparr>,
      \<lparr>rfm_customer_unique_id = ''U3'', Recency = Some 1, Frequency = 1, Monetary = 0,
       R_Score = 5, F_Score = 5, M_Score = 1, RFM_Score_Sum = 11, Segment = ''Silver''\<rparr>]"

text \<open>A cleaned table with a single customer, and a merged table with one canceled order.\<close>

definition example_single :: "(timestamp option, string) cleaned list" where
  "example_single = [example_clean_row ''1'' ''A'' 1704067200000000000 100 10 ''U1'']"

definition example_canceled :: "(string option, string) txn list" where
  "example_canceled = [example_row ''2'' ''B'' ''canceled'' ''2024-01-02'' (Some 30) (Some 3) ''U2'']"

text \<open>
  The three input tables from which the Loader builds the example merged table (the
  order of customer \<open>E\<close> has no customer record and is dropped by the inner join), and
  two states of the sources with a missing and with an unreadable file.
\<close>

definition example_order :: "string \<Rightarrow> string \<Rightarrow> string \<Rightarrow> string \<Rightarrow> string option orders_row" where
  "example_order oid cid status date =
     \<lparr>order_id = Some oid, customer_id = Some cid, order_status = Some status,
      order_purchase_timestamp = Some date, order_approved_at = None,
      order_delivered_customer_date = None\<rparr>"

definition example_orders :: "string option orders_row list" where
  "example_orders =
     [example_order ''1'' ''A'' ''delivered'' ''2024-01-01'',
      example_order ''2'' ''B'' ''canceled'' ''2024-01-02'',
      example_order ''3'' ''C'' ''delivered'' ''2024-01-02'',
      example_order ''4'' ''D'' ''delivered'' ''not a date'',
      example_order ''5'' ''E'' ''delivered'' ''2024-01-02'']"

definition example_items :: "items_row list" where
  "example_items =
     [\<lparr>items_order_id = Some ''1'', items_price = Some 100, items_freight_value = Some 10\<rparr>,
      \<lparr>items_order_id = Some ''1'', items_price = Some 50, items_freight_value = Some 5\<rparr>,
      \<lparr>items_order_id = Some ''2'', items_price = Some 30, items_freight_value = Some 3\<rparr>,
      \<lparr>items_order_id = Some ''4'', items_price = Some 7, items_freight_value = Some 1\<rparr>]"

definition example_customers :: "string customers_row list" where
  "example_customers =
     [\<lparr>customers_customer_id = Some ''A'', customers_customer_unique_id = Some ''U1''\<rparr>,
      \<lparr>customers_customer_id = Some ''B'', customers_customer_unique_id = Some ''U2''\<rparr>,
      \<lparr>customers_customer_id = Some ''C'', customers_customer_unique_id = Some ''U3''\<rparr>,
      \<lparr>customers_customer_id = Some ''D'', customers_customer_unique_id = Some ''U4''\<rparr>]"

definition example_sources :: "string sources" where
  "example_sources =
     \<lparr>olist_orders_dataset = Readable example_orders,
      olist_order_items_dataset = Readable example_items,
      olist_customers_dataset = Readable example_customers\<rparr>"

definition example_missing_items :: "string sources" where
  "example_missing_items =
     \<lparr>olist_orders_dataset = Readable example_orders,
      olist_order_items_dataset = Raises FileNotFoundError,
      olist_customers_dataset = Readable example_customers\<rparr>"

definition example_unreadable_orders :: "string sources" where
  "example_unreadable_orders =
     \<lparr>olist_orders_dataset = Raises PermissionError,
      olist_order_items_dataset = Readable example_items,
      olist_customers_dataset = Readable example_customers\<rparr>"

text \<open>
  A cleaned table with seven customers and ten orders, one row for each order. The
  Monetary values are skewed (one customer spends 1000), the Frequency values have ties,
  and the quintile positions fall between the sorted values.
\<close>

definition example_day :: "nat \<Rightarrow> timestamp" where
  "example_day d = 1704067200000000000 + int d * day_ns"

definition example_seven :: "(timestamp option, string) cleaned list" where
  "example_seven =
     [example_clean_row ''o01'' ''c1'' (example_day 1) 990 10 ''U1'',
      example_clean_row ''o02'' ''c2'' (example_day 2) 8 2 ''U2'',
      example_clean_row ''o03'' ''c3'' (example_day 1) 5 5 ''U3'',
      example_clean_row ''o04'' ''c3'' (example_day 3) 9 1 ''U3'',
      example_clean_row ''o05'' ''c4'' (example_day 4) 25 5 ''U4'',
      example_clean_row ''o06'' ''c5'' (example_day 5) 30 10 ''U5'',
      example_clean_row ''o07'' ''c6'' (example_day 2) 10 0 ''U6'',
      example_clean_row ''o08'' ''c6'' (example_day 4) 15 5 ''U6'',
      example_clean_row ''o09'' ''c6'' (example_day 6) 15 5 ''U6'',
      example_clean_row ''o10'' ''c7'' (example_day 7) 50 10 ''U7'']"

definition example_score_row ::
  "string \<Rightarrow> int \<Rightarrow> int \<Rightarrow> rat \<Rightarrow> int \<Rightarrow> int \<Rightarrow> int \<Rightarrow> string rfm_scored" where
  "example_score_row uid rec freq mon r f m =
     \<lparr>rfm_customer_unique_id = uid, Recency = Some rec, Frequency = freq, Monetary = mon,
      R_Score = r, F_Score = f, M_Score = m, RFM_Score_Sum = r + f + m\<rparr>"

definition example_seven_scored :: "string rfm_scored list" where
  "example_seven_scored =
     [example_score_row ''U1'' 7 1 1000 1 1 5,
      example_score_row ''U2'' 6 1 10 1 1 1,
      example_score_row ''U3'' 5 2 20 2 5 1,
      example_score_row ''U4'' 4 1 30 3 2 2,
      example_score_row ''U5'' 3 1 40 4 3 3,
      example_score_row ''U6'' 2 3 50 5 5 4,
      example_score_row ''U7'' 1 1 60 5 4 5]"

text \<open>
  Two customers with one order each, whose identifiers \<open>a\<close> and \<open>b\<close> are read either as
  text or, when every identifier of the file is written in digits, as integers.
\<close>

definition example_ids :: "'k \<Rightarrow> 'k \<Rightarrow> (timestamp option, 'k) cleaned list" where
  "example_ids a b =
     [example_clean_row ''o1'' ''c1'' (example_day 1) 100 10 a,
      example_clean_row ''o2'' ''c2'' (example_day 2) 50 5 b]"

text \<open>Four scored records whose score sums are the boundary values 12, 11, 8 and 7.\<close>

definition example_boundary :: "string rfm_scored list" where
  "example_boundary =
     [example_score_row ''U1'' 1 9 900 4 4 4,
      example_score_row ''U2'' 2 8 800 4 4 3,
      example_score_row ''U3'' 3 2 200 3 3 2,
      example_score_row ''U4'' 4 1 100 3 2 2]"

text \<open>
  A coarse rounding, to the nearest multiple of a quarter, to show the effect of rounding
  on values that are adjacent in it.
\<close>

definition quarter :: rounding where
  "quarter x = of_int \<lfloor>4 * x + 1 / 2\<rfloor> / 4"

text \<open>A heap holding the example tables as objects.\<close>

definition example_heap :: "string heap" where
  "example_heap = [Merged example_master, Cleaned example_cleaned, Scored example_scored]"

section \<open>Evaluation of the example\<close>

lemma example_load: "load_and_merge_raw_data example_sources = Inr (Some example_master)"
  by code_simp

lemma example_clean: "clean_data example_parse example_master = example_cleaned"
  by code_simp

lemma example_aggregate:
  "rfm_aggregate example_cleaned =
     [\<lparr>rfm_customer_unique_id = ''U1'', Recency = Some 2, Frequency = 1, Monetary = 165\<rparr>,
      \<lparr>rfm_customer_unique_id = ''U3'', Recency = Some 1, Frequency = 1, Monetary = 0\<rparr>]"
  by code_simp

section \<open>Properties of the Loader\<close>

lemma load_readable:
  assumes "olist_orders_dataset fs = Readable df_orders"
    "olist_order_items_dataset fs = Readable df_items"
    "olist_customers_dataset fs = Readable df_cust"
  shows "load_and_merge_raw_data fs = Inr (Some (merge_inner (merge_left df_orders df_items) df_cust))"
  using assms by (simp add: load_and_merge_raw_data_def load_body_def read_csv_def)

lemma load_orders_raise:
  assumes "olist_orders_dataset fs = Raises e"
  shows "load_and_merge_raw_data fs = (if e = FileNotFoundError then Inr None else Inl e)"
  using assms by (simp add: load_and_merge_raw_data_def load_body_def read_csv_def)

text \<open>
  The joins keep multiplicities: an order appears once for each of its line items, or
  once when it has none, and a joined row once for each customer record of its customer
  identifier.
\<close>

lemma length_merge_left:
  "length (merge_left left right) =
     (\<Sum>l\<leftarrow>left. max 1 (length (filter (\<lambda>r. items_order_id r = order_id l) right)))"
proof (induction left)
  case Nil
  show ?case by (simp add: merge_left_def)
next
  case (Cons l left)
  have "merge_left (l # left) right =
      (let ms = filter (\<lambda>r. items_order_id r = order_id l) right in
       if ms = [] then [orders_row.extend l (temp_row.fields None None)]
       else map (\<lambda>r. orders_row.extend l
                        (temp_row.fields (items_price r) (items_freight_value r))) ms)
      @ merge_left left right"
    by (simp add: merge_left_def)
  then show ?case
    using Cons.IH by (cases "filter (\<lambda>r. items_order_id r = order_id l) right") (simp_all add: Let_def)
qed

lemma length_merge_inner:
  "length (merge_inner left right) =
     (\<Sum>l\<leftarrow>left. length (filter (\<lambda>r. customers_customer_id r = customer_id l) right))"
  by (induction left) (simp_all add: merge_inner_def)

lemma merge_keeps_duplicates:
  "merge_left [example_order ''1'' ''A'' ''delivered'' ''2024-01-01'']
     [\<lparr>items_order_id = Some ''1'', items_price = Some 100, items_freight_value = Some 10\<rparr>,
      \<lparr>items_order_id = Some ''1'', items_price = Some 100, items_freight_value = Some 10\<rparr>]
   = [orders_row.extend (example_order ''1'' ''A'' ''delivered'' ''2024-01-01'')
        (temp_row.fields (Some 100) (Some 10)),
      orders_row.extend (example_order ''1'' ''A'' ''delivered'' ''2024-01-01'')
        (temp_row.fields (Some 100) (Some 10))]"
  by (simp add: merge_left_def example_order_def)

text \<open>
  Claim C7. A source that is absent or unreadable must make the load fail in its one
  handled way, which for the code is the return of \<open>None\<close>. The code does so for an
  absent source: with the items file missing it returns \<open>None\<close>. It does not for an
  unreadable one: with the orders file present but not readable, \<open>PermissionError\<close> leaves
  the function and nothing is returned.
\<close>

theorem loader_unreadable_source_raises:
  "olist_order_items_dataset example_missing_items = Raises FileNotFoundError
   \<and> load_and_merge_raw_data example_missing_items = Inr None
   \<and> olist_orders_dataset example_unreadable_orders = Raises PermissionError
   \<and> load_and_merge_raw_data example_unreadable_orders = Inl PermissionError"
  by (simp add: example_missing_items_def example_unreadable_orders_def
      load_and_merge_raw_data_def load_body_def read_csv_def)

section \<open>Properties of the Cleaner\<close>

lemma map_filter_filter_conv:
  "map f (filter P (filter Q xs)) = List.map_filter (\<lambda>x. if Q x \<and> P x then Some (f x) else None) xs"
  by (induction xs) (auto simp: List.map_filter_def)

lemma map_filter_map: "List.map_filter f (map g xs) = List.map_filter (f \<circ> g) xs"
  by (induction xs) (auto simp: List.map_filter_def)

lemma set_map_filter: "set (List.map_filter f xs) = {y. \<exists>x \<in> set xs. f x = Some y}"
  by (force simp: List.map_filter_def image_iff)

lemma map2_zip3_map:
  "map2 f xs (zip (map g xs) (zip (map h xs) (map k xs))) = map (\<lambda>x. f x (g x, h x, k x)) xs"
  by (induction xs) simp_all

lemma convert_dates_map:
  "convert_dates parse df =
     map (\<lambda>r. set_date_cols r
        (case order_purchase_timestamp r of None \<Rightarrow> None
           | Some s \<Rightarrow> parse (map order_purchase_timestamp df) s,
         case order_approved_at r of None \<Rightarrow> None
           | Some s \<Rightarrow> parse (map order_approved_at df) s,
         case order_delivered_customer_date r of None \<Rightarrow> None
           | Some s \<Rightarrow> parse (map order_delivered_customer_date df) s)) df"
  unfolding convert_dates_def Let_def to_datetime_def map_map comp_def
  by (rule map2_zip3_map)

lemma length_convert_dates: "length (convert_dates parse df) = length df"
  by (simp add: convert_dates_map)

lemma cleaner_row_set_date_cols:
  "(if order_status (set_date_cols r (p, a, d)) = Some ''delivered''
       \<and> order_purchase_timestamp (set_date_cols r (p, a, d)) \<noteq> None
       \<and> customer_unique_id (set_date_cols r (p, a, d)) \<noteq> None
    then Some (txn.extend
           (set_date_cols r (p, a, d)
              \<lparr>price := fillna 0 (price (set_date_cols r (p, a, d))),
               freight_value := fillna 0 (freight_value (set_date_cols r (p, a, d)))\<rparr>)
           (cleaned.fields
              (add_cells (fillna 0 (price (set_date_cols r (p, a, d))))
                 (fillna 0 (freight_value (set_date_cols r (p, a, d)))))))
    else None) = cleaner_row r p a d"
  by (auto simp: cleaner_row_def set_date_cols_def txn.defs cleaned.defs fillna_def add_cells_def
      coerce0_def split: option.splits)

lemma clean_data_rowwise:
  "clean_data parse df =
     List.map_filter (\<lambda>r. cleaner_row r
        (case order_purchase_timestamp r of None \<Rightarrow> None
           | Some s \<Rightarrow> parse (map order_purchase_timestamp df) s)
        (case order_approved_at r of None \<Rightarrow> None
           | Some s \<Rightarrow> parse (map order_approved_at df) s)
        (case order_delivered_customer_date r of None \<Rightarrow> None
           | Some s \<Rightarrow> parse (map order_delivered_customer_date df) s)) df"
proof -
  have "clean_data parse df =
      List.map_filter (\<lambda>x. if order_status x = Some ''delivered''
            \<and> order_purchase_timestamp x \<noteq> None \<and> customer_unique_id x \<noteq> None
          then Some (txn.extend
                 (x\<lparr>price := fillna 0 (price x), freight_value := fillna 0 (freight_value x)\<rparr>)
                 (cleaned.fields (add_cells (fillna 0 (price x)) (fillna 0 (freight_value x)))))
          else None) (convert_dates parse df)"
    unfolding clean_data_def Let_def map_map map_filter_filter_conv comp_def
    by (simp cong: if_cong)
  then show ?thesis
    unfolding convert_dates_map map_filter_map comp_def cleaner_row_set_date_cols .
qed

lemma cleaner_row_Some:
  assumes "cleaner_row r0 p a d = Some r"
  shows "order_status r = Some ''delivered'' \<and> order_purchase_timestamp r \<noteq> None
     \<and> customer_unique_id r \<noteq> None
     \<and> order_id r = order_id r0 \<and> customer_id r = customer_id r0
     \<and> customer_unique_id r = customer_unique_id r0
     \<and> order_purchase_timestamp r = p \<and> order_approved_at r = a
     \<and> order_delivered_customer_date r = d
     \<and> price r = Some (case price r0 of None \<Rightarrow> 0 | Some x \<Rightarrow> x)
     \<and> freight_value r = Some (case freight_value r0 of None \<Rightarrow> 0 | Some x \<Rightarrow> x)
     \<and> total_value r = Some ((case price r0 of None \<Rightarrow> 0 | Some x \<Rightarrow> x)
                              + (case freight_value r0 of None \<Rightarrow> 0 | Some x \<Rightarrow> x))"
  using assms by (auto simp: cleaner_row_def coerce0_def split: if_splits)

lemma nth_convert_dates:
  assumes "i < length df"
  shows "order_id (convert_dates parse df ! i) = order_id (df ! i)
    \<and> customer_id (convert_dates parse df ! i) = customer_id (df ! i)
    \<and> order_status (convert_dates parse df ! i) = order_status (df ! i)
    \<and> price (convert_dates parse df ! i) = price (df ! i)
    \<and> freight_value (convert_dates parse df ! i) = freight_value (df ! i)
    \<and> customer_unique_id (convert_dates parse df ! i) = customer_unique_id (df ! i)
    \<and> order_purchase_timestamp (convert_dates parse df ! i) =
        (case order_purchase_timestamp (df ! i) of None \<Rightarrow> None
           | Some s \<Rightarrow> parse (map order_purchase_timestamp df) s)
    \<and> order_approved_at (convert_dates parse df ! i) =
        (case order_approved_at (df ! i) of None \<Rightarrow> None
           | Some s \<Rightarrow> parse (map order_approved_at df) s)
    \<and> order_delivered_customer_date (convert_dates parse df ! i) =
        (case order_delivered_customer_date (df ! i) of None \<Rightarrow> None
           | Some s \<Rightarrow> parse (map order_delivered_customer_date df) s)"
  using assms by (simp add: convert_dates_map set_date_cols_def)

text \<open>
  Claim C2. Every row of the Cleaner's output is delivered, has a purchase timestamp and
  a customer-unique identifier, and comes from a row of the input: it has that row's
  identifiers, its purchase date parsed, its price and freight with nulls coerced to 0,
  and as total value the sum of the coerced price and freight. The steps run in the
  order of the specification: the output is, row by row in input order, the rows that
  after date parsing are delivered and have a purchase timestamp and a customer
  identifier, so a row whose purchase date does not parse is dropped by the null-drop;
  the date parsing itself keeps every row, turns a null or unparseable date into a null
  and leaves every other column as it is.
\<close>

theorem cleaner_output:
  "clean_data parse df =
     List.map_filter (\<lambda>r. cleaner_row r
        (case order_purchase_timestamp r of None \<Rightarrow> None
           | Some s \<Rightarrow> parse (map order_purchase_timestamp df) s)
        (case order_approved_at r of None \<Rightarrow> None
           | Some s \<Rightarrow> parse (map order_approved_at df) s)
        (case order_delivered_customer_date r of None \<Rightarrow> None
           | Some s \<Rightarrow> parse (map order_delivered_customer_date df) s)) df
   \<and> (\<forall>r \<in> set (clean_data parse df).
        order_status r = Some ''delivered'' \<and> order_purchase_timestamp r \<noteq> None
        \<and> customer_unique_id r \<noteq> None
        \<and> (\<exists>r0 \<in> set df.
              order_id r = order_id r0 \<and> customer_id r = customer_id r0
              \<and> order_status r = order_status r0
              \<and> customer_unique_id r = customer_unique_id r0
              \<and> order_purchase_timestamp r =
                  (case order_purchase_timestamp r0 of None \<Rightarrow> None
                     | Some s \<Rightarrow> parse (map order_purchase_timestamp df) s)
              \<and> order_approved_at r =
                  (case order_approved_at r0 of None \<Rightarrow> None
                     | Some s \<Rightarrow> parse (map order_approved_at df) s)
              \<and> order_delivered_customer_date r =
                  (case order_delivered_customer_date r0 of None \<Rightarrow> None
                     | Some s \<Rightarrow> parse (map order_delivered_customer_date df) s)
              \<and> price r = Some (case price r0 of None \<Rightarrow> 0 | Some x \<Rightarrow> x)
              \<and> freight_value r = Some (case freight_value r0 of None \<Rightarrow> 0 | Some x \<Rightarrow> x)
              \<and> total_value r = Some ((case price r0 of None \<Rightarrow> 0 | Some x \<Rightarrow> x)
                                       + (case freight_value r0 of None \<Rightarrow> 0 | Some x \<Rightarrow> x))))
   \<and> length (convert_dates parse df) = length df
   \<and> (\<forall>i < length df.
        order_id (convert_dates parse df ! i) = order_id (df ! i)
        \<and> customer_id (convert_dates parse df ! i) = customer_id (df ! i)
        \<and> order_status (convert_dates parse df ! i) = order_status (df ! i)
        \<and> price (convert_dates parse df ! i) = price (df ! i)
        \<and> freight_value (convert_dates parse df ! i) = freight_value (df ! i)
        \<and> customer_unique_id (convert_dates parse df ! i) = customer_unique_id (df ! i)
        \<and> order_purchase_timestamp (convert_dates parse df ! i) =
            (case order_purchase_timestamp (df ! i) of None \<Rightarrow> None
               | Some s \<Rightarrow> parse (map order_purchase_timestamp df) s)
        \<and> order_approved_at (convert_dates parse df ! i) =
            (case order_approved_at (df ! i) of None \<Rightarrow> None
               | Some s \<Rightarrow> parse (map order_approved_at df) s)
        \<and> order_delivered_customer_date (convert_dates parse df ! i) =
            (case order_delivered_customer_date (df ! i) of None \<Rightarrow> None
               | Some s \<Rightarrow> parse (map order_delivered_customer_date df) s))"
proof (intro conjI ballI allI impI)
  show "clean_data parse df =
     List.map_filter (\<lambda>r. cleaner_row r
        (case order_purchase_timestamp r of None \<Rightarrow> None
           | Some s \<Rightarrow> parse (map order_purchase_timestamp df) s)
        (case order_approved_at r of None \<Rightarrow> None
           | Some s \<Rightarrow> parse (map order_approved_at df) s)
        (case order_delivered_customer_date r of None \<Rightarrow> None
           | Some s \<Rightarrow> parse (map order_delivered_customer_date df) s)) df"
    by (rule clean_data_rowwise)
  show "length (convert_dates parse df) = length df"
    by (rule length_convert_dates)
next
  fix r assume "r \<in> set (clean_data parse df)"
  then obtain r0 where r0: "r0 \<in> set df"
    and c: "cleaner_row r0
        (case order_purchase_timestamp r0 of None \<Rightarrow> None
           | Some s \<Rightarrow> parse (map order_purchase_timestamp df) s)
        (case order_approved_at r0 of None \<Rightarrow> None
           | Some s \<Rightarrow> parse (map order_approved_at df) s)
        (case order_delivered_customer_date r0 of None \<Rightarrow> None
           | Some s \<Rightarrow> parse (map order_delivered_customer_date df) s) = Some r"
    unfolding clean_data_rowwise set_map_filter by blast
  note p = cleaner_row_Some[OF c]
  from p show "order_status r = Some ''delivered''" "order_purchase_timestamp r \<noteq> None"
    "customer_unique_id r \<noteq> None"
    by blast+
  from p have "order_status r = order_status r0"
    using c by (auto simp: cleaner_row_def split: if_splits)
  with p r0 show "\<exists>r0 \<in> set df.
              order_id r = order_id r0 \<and> customer_id r = customer_id r0
              \<and> order_status r = order_status r0
              \<and> customer_unique_id r = customer_unique_id r0
              \<and> order_purchase_timestamp r =
                  (case order_purchase_timestamp r0 of None \<Rightarrow> None
                     | Some s \<Rightarrow> parse (map order_purchase_timestamp df) s)
              \<and> order_approved_at r =
                  (case order_approved_at r0 of None \<Rightarrow> None
                     | Some s \<Rightarrow> parse (map order_approved_at df) s)
              \<and> order_delivered_customer_date r =
                  (case order_delivered_customer_date r0 of None \<Rightarrow> None
                     | Some s \<Rightarrow> parse (map order_delivered_customer_date df) s)
              \<and> price r = Some (case price r0 of None \<Rightarrow> 0 | Some x \<Rightarrow> x)
              \<and> freight_value r = Some (case freight_value r0 of None \<Rightarrow> 0 | Some x \<Rightarrow> x)
              \<and> total_value r = Some ((case price r0 of None \<Rightarrow> 0 | Some x \<Rightarrow> x)
                                       + (case freight_value r0 of None \<Rightarrow> 0 | Some x \<Rightarrow> x))"
    by (intro bexI[of _ r0]) blast+
next
  fix i assume i: "i < length df"
  note n = nth_convert_dates[OF i, of parse]
  from n show "order_id (convert_dates parse df ! i) = order_id (df ! i)" by blast
  from n show "customer_id (convert_dates parse df ! i) = customer_id (df ! i)" by blast
  from n show "order_status (convert_dates parse df ! i) = order_status (df ! i)" by blast
  from n show "price (convert_dates parse df ! i) = price (df ! i)" by blast
  from n show "freight_value (convert_dates parse df ! i) = freight_value (df ! i)" by blast
  from n show "customer_unique_id (convert_dates parse df ! i) = customer_unique_id (df ! i)" by blast
  from n show "order_purchase_timestamp (convert_dates parse df ! i) =
            (case order_purchase_timestamp (df ! i) of None \<Rightarrow> None
               | Some s \<Rightarrow> parse (map order_purchase_timestamp df) s)" by blast
  from n show "order_approved_at (convert_dates parse df ! i) =
            (case order_approved_at (df ! i) of None \<Rightarrow> None
               | Some s \<Rightarrow> parse (map order_approved_at df) s)" by blast
  from n show "order_delivered_customer_date (convert_dates parse df ! i) =
            (case order_delivered_customer_date (df ! i) of None \<Rightarrow> None
               | Some s \<Rightarrow> parse (map order_delivered_customer_date df) s)" by blast
qed

theorem cleaner_output_witness:
  "clean_data example_parse example_master = example_cleaned
   \<and> example_clean_row ''1'' ''A'' 1704067200000000000 100 10 ''U1''
        \<in> set (clean_data example_parse example_master)
   \<and> order_status (example_clean_row ''1'' ''A'' 1704067200000000000 100 10 ''U1'') = Some ''delivered''
   \<and> order_purchase_timestamp (example_clean_row ''1'' ''A'' 1704067200000000000 100 10 ''U1'') \<noteq> None
   \<and> customer_unique_id (example_clean_row ''1'' ''A'' 1704067200000000000 100 10 ''U1'') \<noteq> None
   \<and> total_value (example_clean_row ''1'' ''A'' 1704067200000000000 100 10 ''U1'') = Some 110
   \<and> total_value (example_cleaned ! 2) = Some 0
   \<and> 4 < length example_master
   \<and> order_purchase_timestamp (convert_dates example_parse example_master ! 4) = None
   \<and> price (convert_dates example_parse example_master ! 4) = Some 7
   \<and> length (convert_dates example_parse example_master) = 5"
proof -
  let ?r = "example_clean_row ''1'' ''A'' 1704067200000000000 100 10 ''U1''"
  note out = cleaner_output[of example_parse example_master]
  have "List.map_filter (\<lambda>r. cleaner_row r
        (case order_purchase_timestamp r of None \<Rightarrow> None
           | Some s \<Rightarrow> example_parse (map order_purchase_timestamp example_master) s)
        (case order_approved_at r of None \<Rightarrow> None
           | Some s \<Rightarrow> example_parse (map order_approved_at example_master) s)
        (case order_delivered_customer_date r of None \<Rightarrow> None
           | Some s \<Rightarrow> example_parse (map order_delivered_customer_date example_master) s))
      example_master = example_cleaned"
    by code_simp
  with out have eq: "clean_data example_parse example_master = example_cleaned"
    by (simp only:)
  have mem: "?r \<in> set (clean_data example_parse example_master)"
    unfolding eq by (simp add: example_cleaned_def)
  with out have row: "order_status ?r = Some ''delivered'' \<and> order_purchase_timestamp ?r \<noteq> None
      \<and> customer_unique_id ?r \<noteq> None"
    by blast
  have total: "total_value ?r = Some 110" "total_value (example_cleaned ! 2) = Some 0"
    by (simp_all add: example_clean_row_def example_cleaned_def)
  have len: "4 < length example_master" "length example_master = 5"
    by (simp_all add: example_master_def)
  from out len(1) have "order_purchase_timestamp (convert_dates example_parse example_master ! 4) =
            (case order_purchase_timestamp (example_master ! 4) of None \<Rightarrow> None
               | Some s \<Rightarrow> example_parse (map order_purchase_timestamp example_master) s)
      \<and> price (convert_dates example_parse example_master ! 4) = price (example_master ! 4)"
    by blast
  then have nat: "order_purchase_timestamp (convert_dates example_parse example_master ! 4) = None"
      "price (convert_dates example_parse example_master ! 4) = Some 7"
    by (simp_all add: example_master_def example_row_def example_parse_def)
  from out len(2) have len1: "length (convert_dates example_parse example_master) = 5"
    by simp
  from eq mem row total len(1) nat len1 show ?thesis by blast
qed

section \<open>Properties of the aggregation\<close>

lemma set_dropna: "set (dropna col) = {v. Some v \<in> set col}"
  by (force simp: dropna_def image_iff)

lemma dropna_map_Some: "dropna (map Some xs) = xs"
  by (induction xs) (auto simp: dropna_def)

lemma dropna_Nil_iff: "dropna col = [] \<longleftrightarrow> (\<forall>c \<in> set col. c = None)"
  by (auto simp: dropna_def filter_empty_conv)

lemma series_max_Some:
  assumes "Some v \<in> set col"
  shows "series_max col = Some (Max {t. Some t \<in> set col})"
  using assms by (auto simp: series_max_def Let_def set_dropna dropna_Nil_iff)

lemma set_group_keys:
  "set (group_keys df) = {k. \<exists>r \<in> set df. customer_unique_id r = Some k}"
  by (force simp: group_keys_def set_dropna image_iff)

lemma distinct_group_keys: "distinct (group_keys df)"
  by (simp add: group_keys_def)

lemma sorted_group_keys: "sorted (group_keys df)"
  by (simp add: group_keys_def)

lemma customers_rfm_aggregate: "map rfm_customer_unique_id (rfm_aggregate df) = group_keys df"
  by (simp add: rfm_aggregate_def Let_def comp_def)

lemma nunique_card: "nunique col = int (card {v. Some v \<in> set col})"
  by (simp add: nunique_def length_remdups_card_conv set_dropna)

lemma nansum_coerce0: "nansum col = sum_list (map coerce0 col)"
  by (induction col) (auto simp: nansum_def dropna_def coerce0_def)

lemma rfm_aggregate_row:
  assumes "g \<in> set (rfm_aggregate df)"
  shows "\<exists>k \<in> set (group_keys df). g =
     \<lparr>rfm_customer_unique_id = k,
      Recency = recency_of (present_date df) (map order_purchase_timestamp (get_group k df)),
      Frequency = nunique (map order_id (get_group k df)),
      Monetary = nansum (map total_value (get_group k df))\<rparr>"
  using assms by (auto simp: rfm_aggregate_def Let_def)

text \<open>
  Claim C4. For every customer of the aggregated table, Frequency is the number of
  distinct order identifiers of that customer's rows, not the number of rows, while
  Monetary sums the total value of every row (line item) of the customer; the table has
  one row for each customer-unique identifier.
\<close>

theorem frequency_counts_orders:
  "(\<forall>g \<in> set (rfm_aggregate df).
      Frequency g = int (card {oid. \<exists>r \<in> set df.
                           customer_unique_id r = Some (rfm_customer_unique_id g) \<and> order_id r = Some oid})
      \<and> Monetary g = sum_list (map (coerce0 \<circ> total_value)
                         (filter (\<lambda>r. customer_unique_id r = Some (rfm_customer_unique_id g)) df)))
   \<and> distinct (map rfm_customer_unique_id (rfm_aggregate df))
   \<and> set (map rfm_customer_unique_id (rfm_aggregate df)) = {k. \<exists>r \<in> set df. customer_unique_id r = Some k}"
proof (intro conjI ballI)
  fix g assume "g \<in> set (rfm_aggregate df)"
  then obtain k where k: "g = \<lparr>rfm_customer_unique_id = k,
      Recency = recency_of (present_date df) (map order_purchase_timestamp (get_group k df)),
      Frequency = nunique (map order_id (get_group k df)),
      Monetary = nansum (map total_value (get_group k df))\<rparr>"
    using rfm_aggregate_row by blast
  have "{v. Some v \<in> set (map order_id (get_group k df))}
      = {oid. \<exists>r \<in> set df. customer_unique_id r = Some k \<and> order_id r = Some oid}"
    by (force simp: get_group_def image_iff)
  then show "Frequency g = int (card {oid. \<exists>r \<in> set df.
                           customer_unique_id r = Some (rfm_customer_unique_id g) \<and> order_id r = Some oid})"
    by (simp add: k nunique_card)
  show "Monetary g = sum_list (map (coerce0 \<circ> total_value)
                         (filter (\<lambda>r. customer_unique_id r = Some (rfm_customer_unique_id g)) df))"
    by (simp add: k nansum_coerce0 get_group_def)
next
  show "distinct (map rfm_customer_unique_id (rfm_aggregate df))"
    by (simp add: customers_rfm_aggregate distinct_group_keys)
  show "set (map rfm_customer_unique_id (rfm_aggregate df)) = {k. \<exists>r \<in> set df. customer_unique_id r = Some k}"
    unfolding customers_rfm_aggregate by (rule set_group_keys)
qed

theorem frequency_counts_orders_witness:
  "\<lparr>rfm_customer_unique_id = ''U1'', Recency = Some 2, Frequency = 1, Monetary = 165\<rparr>
      \<in> set (rfm_aggregate example_cleaned)
   \<and> length (filter (\<lambda>r. customer_unique_id r = Some ''U1'') example_cleaned) = 2
   \<and> card {oid. \<exists>r \<in> set example_cleaned. customer_unique_id r = Some ''U1'' \<and> order_id r = Some oid} = 1
   \<and> sum_list (map (coerce0 \<circ> total_value)
        (filter (\<lambda>r. customer_unique_id r = Some ''U1'') example_cleaned)) = 165"
proof -
  let ?g = "\<lparr>rfm_customer_unique_id = ''U1'', Recency = Some 2, Frequency = 1, Monetary = 165\<rparr>"
  have mem: "?g \<in> set (rfm_aggregate example_cleaned)"
    by (simp add: example_aggregate)
  with frequency_counts_orders[of example_cleaned]
  have "Frequency ?g = int (card {oid. \<exists>r \<in> set example_cleaned.
            customer_unique_id r = Some (rfm_customer_unique_id ?g) \<and> order_id r = Some oid})
      \<and> Monetary ?g = sum_list (map (coerce0 \<circ> total_value)
            (filter (\<lambda>r. customer_unique_id r = Some (rfm_customer_unique_id ?g)) example_cleaned))"
    by blast
  then have freq: "card {oid. \<exists>r \<in> set example_cleaned.
            customer_unique_id r = Some ''U1'' \<and> order_id r = Some oid} = 1"
    and mon: "sum_list (map (coerce0 \<circ> total_value)
        (filter (\<lambda>r. customer_unique_id r = Some ''U1'') example_cleaned)) = 165"
    by simp_all
  have rows: "length (filter (\<lambda>r. customer_unique_id r = Some ''U1'') example_cleaned) = 2"
    by (simp add: example_cleaned_def example_clean_row_def)
  from mem rows freq mon show ?thesis by blast
qed

lemma day_ns_pos: "0 < day_ns" by (simp add: day_ns_def)

lemma present_date_Some:
  assumes "Some v \<in> set (map order_purchase_timestamp df)"
  shows "present_date df = Some (Max {t. Some t \<in> set (map order_purchase_timestamp df)} + day_ns)"
  using series_max_Some[OF assms] by (simp add: present_date_def)

lemma days_ge_1:
  assumes "m \<le> M"
  shows "1 \<le> days (M + day_ns - m)"
proof -
  have "day_ns \<le> M + day_ns - m" using assms by simp
  then have "day_ns div day_ns \<le> (M + day_ns - m) div day_ns"
    by (rule zdiv_mono1) (rule day_ns_pos)
  then show ?thesis using day_ns_pos by (simp add: days_def)
qed

lemma days_of_day: "days day_ns = 1"
  using day_ns_pos by (simp add: days_def)

lemma recency_of_Some:
  "recency_of (Some p) col = map_option (\<lambda>m. days (p - m)) (series_max col)"
  by (simp add: recency_of_def split: option.splits)

text \<open>
  Claim C5. For a non-empty cleaned table the reference instant is the latest purchase
  timestamp of the whole table plus one day, the Recency of a customer is the number of
  whole days from the customer's latest purchase to the reference instant, every Recency
  is at least 1, and the most recent purchaser has Recency exactly 1.
\<close>

theorem recency_reference_instant:
  assumes nonempty: "df \<noteq> []"
    and cleaned: "\<forall>r \<in> set df. order_purchase_timestamp r \<noteq> None \<and> customer_unique_id r \<noteq> None"
  shows "present_date df = Some (Max {t. \<exists>r \<in> set df. order_purchase_timestamp r = Some t} + day_ns)
    \<and> (\<forall>g \<in> set (rfm_aggregate df).
          Recency g = Some (days (the (present_date df)
                - Max {t. \<exists>r \<in> set df. customer_unique_id r = Some (rfm_customer_unique_id g)
                              \<and> order_purchase_timestamp r = Some t}))
          \<and> Recency g \<noteq> None \<and> 1 \<le> the (Recency g))
    \<and> (\<exists>g \<in> set (rfm_aggregate df). Recency g = Some 1)"
proof -
  let ?T = "{t. \<exists>r \<in> set df. order_purchase_timestamp r = Some t}"
  let ?G = "\<lambda>k. {t. \<exists>r \<in> set df. customer_unique_id r = Some k \<and> order_purchase_timestamp r = Some t}"
  have T_eq: "{t. Some t \<in> set (map order_purchase_timestamp df)} = ?T"
    by (force simp: image_iff)
  have finT: "finite ?T"
  proof -
    have "{t. Some t \<in> set (map order_purchase_timestamp df)} = set (dropna (map order_purchase_timestamp df))"
      by (simp only: set_dropna)
    then show ?thesis unfolding T_eq[symmetric] by simp
  qed
  obtain r0 where r0: "r0 \<in> set df" using nonempty by (cases df) auto
  then obtain t0 where t0: "order_purchase_timestamp r0 = Some t0" using cleaned by auto
  then have "Some t0 \<in> set (map order_purchase_timestamp df)" using r0 by (force simp: image_iff)
  from present_date_Some[OF this]
  have present: "present_date df = Some (Max ?T + day_ns)" by (simp only: T_eq)
  have Tne: "?T \<noteq> {}" using r0 t0 by blast
  have group: "Recency g = Some (days (Max ?T + day_ns - Max (?G (rfm_customer_unique_id g))))
        \<and> Max (?G (rfm_customer_unique_id g)) \<le> Max ?T
        \<and> ?G (rfm_customer_unique_id g) \<noteq> {}"
    if g: "g \<in> set (rfm_aggregate df)" for g
  proof -
    obtain k where k: "k \<in> set (group_keys df)"
      and gk: "g = \<lparr>rfm_customer_unique_id = k,
        Recency = recency_of (present_date df) (map order_purchase_timestamp (get_group k df)),
        Frequency = nunique (map order_id (get_group k df)),
        Monetary = nansum (map total_value (get_group k df))\<rparr>"
      using rfm_aggregate_row[OF g] by blast
    from k obtain r where r: "r \<in> set df" "customer_unique_id r = Some k"
      by (auto simp: set_group_keys)
    then obtain t where t: "order_purchase_timestamp r = Some t" using cleaned by auto
    have G_eq: "{t. Some t \<in> set (map order_purchase_timestamp (get_group k df))} = ?G k"
      by (force simp: get_group_def image_iff)
    have "Some t \<in> set (map order_purchase_timestamp (get_group k df))"
      using r t by (force simp: get_group_def image_iff)
    from series_max_Some[OF this]
    have sm: "series_max (map order_purchase_timestamp (get_group k df)) = Some (Max (?G k))"
      by (simp only: G_eq)
    have Gne: "?G k \<noteq> {}" using r t by blast
    have "?G k \<subseteq> ?T" by blast
    then have "Max (?G k) \<le> Max ?T" using Gne finT by (rule Max_mono)
    then show ?thesis using sm Gne by (simp add: gk present recency_of_Some)
  qed
  have part2: "\<forall>g \<in> set (rfm_aggregate df).
          Recency g = Some (days (the (present_date df) - Max (?G (rfm_customer_unique_id g))))
          \<and> Recency g \<noteq> None \<and> 1 \<le> the (Recency g)"
    using group days_ge_1 by (simp add: present)
  have "Max ?T \<in> ?T" using finT Tne by (rule Max_in)
  then obtain r where r: "r \<in> set df" "order_purchase_timestamp r = Some (Max ?T)" by blast
  then obtain k where k: "customer_unique_id r = Some k" using cleaned by auto
  then have "k \<in> set (group_keys df)" using r by (auto simp: set_group_keys)
  then have "k \<in> set (map rfm_customer_unique_id (rfm_aggregate df))"
    by (simp only: customers_rfm_aggregate)
  then obtain g where g: "g \<in> set (rfm_aggregate df)" "rfm_customer_unique_id g = k" by auto
  have "Max ?T \<in> ?G k" using r k by blast
  moreover have "finite (?G k)" by (rule finite_subset[OF _ finT]) blast
  ultimately have "Max ?T \<le> Max (?G k)" by (rule Max_ge[rotated])
  with group[OF g(1)] g(2) have "Max (?G k) = Max ?T" by simp
  with group[OF g(1)] g(2) have "Recency g = Some 1" by (simp add: days_of_day)
  with g(1) have part3: "\<exists>g \<in> set (rfm_aggregate df). Recency g = Some 1" by blast
  from present part2 part3 show ?thesis by blast
qed


theorem recency_reference_instant_witness:
  "example_cleaned \<noteq> []
   \<and> present_date example_cleaned = Some (1704153600000000000 + day_ns)
   \<and> \<lparr>rfm_customer_unique_id = ''U1'', Recency = Some 2, Frequency = 1, Monetary = 165\<rparr>
        \<in> set (rfm_aggregate example_cleaned)
   \<and> 1 \<le> the (Recency \<lparr>rfm_customer_unique_id = ''U1'', Recency = Some 2, Frequency = 1, Monetary = 165\<rparr>)
   \<and> Max {t. \<exists>r \<in> set example_cleaned. order_purchase_timestamp r = Some t} = 1704153600000000000"
proof -
  let ?g = "\<lparr>rfm_customer_unique_id = ''U1'', Recency = Some 2, Frequency = 1, Monetary = 165\<rparr>"
  have ne: "example_cleaned \<noteq> []"
    by (simp add: example_cleaned_def)
  have inv: "\<forall>r \<in> set example_cleaned. order_purchase_timestamp r \<noteq> None \<and> customer_unique_id r \<noteq> None"
    by (simp add: example_cleaned_def example_clean_row_def)
  note th = recency_reference_instant[OF ne inv]
  have mem: "?g \<in> set (rfm_aggregate example_cleaned)"
    by (simp add: example_aggregate)
  with th have ge: "1 \<le> the (Recency ?g)" by blast
  have present: "present_date example_cleaned = Some (1704153600000000000 + day_ns)"
    by code_simp
  with th have mx: "Max {t. \<exists>r \<in> set example_cleaned. order_purchase_timestamp r = Some t} = 1704153600000000000"
    by simp
  from ne present mem ge mx show ?thesis by blast
qed

section \<open>Properties of the scoring\<close>

subsection \<open>Ranks\<close>

lemma length_filter_take_less:
  assumes "i < j" "j \<le> length xs" "P (xs ! i)"
  shows "length (filter P (take i xs)) < length (filter P (take j xs))"
proof -
  from assms(1) obtain d where j: "j = Suc i + d"
    using less_imp_Suc_add by auto
  have "i < length xs" using assms by simp
  then have "take (Suc i) xs = take i xs @ [xs ! i]"
    by (rule take_Suc_conv_app_nth)
  moreover have "take j xs = take (Suc i) xs @ take d (drop (Suc i) xs)"
    unfolding j by (rule take_add)
  ultimately have "filter P (take j xs)
      = filter P (take i xs) @ filter P [xs ! i] @ filter P (take d (drop (Suc i) xs))"
    by simp
  then show ?thesis using assms(3) by simp
qed

lemma length_filter_take_le: "length (filter P (take i xs)) \<le> length (filter P xs)"
proof -
  have "filter P xs = filter P (take i xs) @ filter P (drop i xs)"
    by (metis append_take_drop_id filter_append)
  then show ?thesis by simp
qed

lemma length_filter_take_lt:
  assumes "i < length xs" "P (xs ! i)"
  shows "length (filter P (take i xs)) < length (filter P xs)"
  using length_filter_take_less[of i "length xs" xs P] assms by simp

lemma count_lt_eq_le:
  fixes a b :: int
  assumes "a < b"
  shows "length (filter (\<lambda>v. v < a) xs) + length (filter (\<lambda>v. v = a) xs) \<le> length (filter (\<lambda>v. v < b) xs)"
  using assms by (induction xs) auto

lemma rank_pos_less:
  assumes "i < length col" "j < length col" "col ! i < col ! j"
  shows "rank_pos col i < rank_pos col j"
proof -
  have "length (filter (\<lambda>v. v = col ! i) (take i col)) < length (filter (\<lambda>v. v = col ! i) col)"
    using assms(1) by (intro length_filter_take_lt) simp_all
  with count_lt_eq_le[OF assms(3), of col] show ?thesis
    by (simp add: rank_pos_def)
qed

lemma rank_pos_tie:
  assumes "i < j" "j < length col" "col ! i = col ! j"
  shows "rank_pos col i < rank_pos col j"
proof -
  have "length (filter (\<lambda>v. v = col ! i) (take i col)) < length (filter (\<lambda>v. v = col ! i) (take j col))"
    using assms by (intro length_filter_take_less) simp_all
  then show ?thesis using assms(3) by (simp add: rank_pos_def)
qed

lemma rank_pos_inj:
  assumes "i < length col" "j < length col" "rank_pos col i = rank_pos col j"
  shows "i = j"
proof (rule ccontr)
  assume "i \<noteq> j"
  consider "col ! i < col ! j" | "col ! j < col ! i" | "col ! i = col ! j" "i < j" | "col ! i = col ! j" "j < i"
    using \<open>i \<noteq> j\<close> by linarith
  then show False
    using rank_pos_less[of i col j] rank_pos_less[of j col i] rank_pos_tie[of i j col] rank_pos_tie[of j i col] assms
    by cases auto
qed

lemma count_lt_eq_total:
  fixes a :: int
  shows "length (filter (\<lambda>v. v < a) xs) + length (filter (\<lambda>v. v = a) xs) \<le> length xs"
  by (induction xs) auto

lemma rank_pos_range:
  assumes "i < length col"
  shows "1 \<le> rank_pos col i \<and> rank_pos col i \<le> length col"
proof -
  have "length (filter (\<lambda>v. v = col ! i) (take i col)) < length (filter (\<lambda>v. v = col ! i) col)"
    using assms by (intro length_filter_take_lt) simp_all
  with count_lt_eq_total[of "col ! i" col] show ?thesis by (simp add: rank_pos_def)
qed

lemma rank_pos_set: "rank_pos col ` {0..<length col} = {1..length col}"
proof (rule card_subset_eq)
  show "rank_pos col ` {0..<length col} \<subseteq> {1..length col}"
    using rank_pos_range by auto
  have "inj_on (rank_pos col) {0..<length col}"
    by (rule inj_onI) (auto dest: rank_pos_inj)
  then show "card (rank_pos col ` {0..<length col}) = card {1..length col}"
    by (simp add: card_image)
qed simp

lemma sort_rank_pos:
  "sort (map (rank_pos col) [0..<length col]) = [1..<Suc (length col)]"
proof (rule sorted_distinct_set_unique)
  show "distinct (sort (map (rank_pos col) [0..<length col]))"
    by (auto simp: distinct_map intro!: inj_onI dest: rank_pos_inj)
  show "set (sort (map (rank_pos col) [0..<length col])) = set [1..<Suc (length col)]"
  proof -
    have "set (sort (map (rank_pos col) [0..<length col])) = rank_pos col ` {0..<length col}"
      by simp
    also have "\<dots> = {1..length col}" by (rule rank_pos_set)
    also have "\<dots> = set [1..<Suc (length col)]"
      by (simp only: set_upt atLeastLessThanSuc_atLeastAtMost)
    finally show ?thesis .
  qed
qed (simp_all del: upt_Suc)

lemma insort_map_strict_mono:
  fixes f :: "'a::linorder \<Rightarrow> 'b::linorder"
  assumes "strict_mono f"
  shows "insort (f x) (map f ys) = map f (insort x ys)"
  using assms by (induction ys) (auto simp: strict_mono_less_eq)

lemma sort_map_strict_mono:
  fixes f :: "'a::linorder \<Rightarrow> 'b::linorder"
  assumes "strict_mono f"
  shows "sort (map f xs) = map f (sort xs)"
  using assms by (induction xs) (simp_all add: insort_map_strict_mono)

lemma strict_mono_rat_of_nat: "strict_mono (of_nat :: nat \<Rightarrow> rat)"
  by (simp add: strict_mono_def)

lemma strict_mono_rat_of_int: "strict_mono (of_int :: int \<Rightarrow> rat)"
  by (simp add: strict_mono_def)

lemma sort_rank_first: "sort (rank_first col) = map of_nat [1..<Suc (length col)]"
proof -
  have "rank_first col = map (of_nat :: nat \<Rightarrow> rat) (map (rank_pos col) [0..<length col])"
    by (simp add: rank_first_def)
  then show ?thesis
    by (simp only: sort_map_strict_mono[OF strict_mono_rat_of_nat] sort_rank_pos)
qed



subsection \<open>Quantile edges\<close>

lemma quantile_pos_bounds:
  fixes q :: rat
  assumes "0 \<le> q" "q \<le> 1"
  shows "nat \<lfloor>q * of_nat n\<rfloor> \<le> n"
proof -
  have "q * of_nat n \<le> of_nat n"
    using assms by (simp add: mult_left_le_one_le)
  then have "\<lfloor>q * of_nat n\<rfloor> \<le> int n"
    by (metis floor_mono floor_of_nat)
  then show ?thesis by simp
qed

lemma fifth_position:
  fixes k m :: nat
  shows "nat \<lfloor>(of_nat k :: rat) / 5 * of_nat m\<rfloor> = (k * m) div 5"
    and "(of_nat k :: rat) / 5 * of_nat m - of_nat ((k * m) div 5) = of_nat ((k * m) mod 5) / 5"
proof -
  have eq: "(of_nat k :: rat) / 5 * of_nat m = of_nat (k * m) / of_nat 5"
    by simp
  have "\<lfloor>(of_nat (k * m) :: rat) / of_nat 5\<rfloor> = int ((k * m) div 5)"
    by (simp only: floor_divide_of_nat_eq)
  then show "nat \<lfloor>(of_nat k :: rat) / 5 * of_nat m\<rfloor> = (k * m) div 5"
    unfolding eq by (simp only: nat_int)
  have "(of_nat (k * m) :: rat) = of_nat (5 * ((k * m) div 5) + (k * m) mod 5)"
    by (simp only: mult_div_mod_eq)
  then have "(of_nat (k * m) :: rat) = 5 * of_nat ((k * m) div 5) + of_nat ((k * m) mod 5)"
    by (simp only: of_nat_add of_nat_mult of_nat_numeral)
  then show "(of_nat k :: rat) / 5 * of_nat m - of_nat ((k * m) div 5) = of_nat ((k * m) mod 5) / 5"
    unfolding eq by (simp add: field_simps)
qed

lemma fifth_position_below:
  fixes k m :: nat
  assumes "k \<le> 5" "(k * m) mod 5 \<noteq> 0"
  shows "(k * m) div 5 < m"
proof (rule ccontr)
  assume "\<not> (k * m) div 5 < m"
  then have "m \<le> (k * m) div 5" by simp
  moreover have "(k * m) div 5 \<le> (5 * m) div 5"
    using assms(1) by (intro div_le_mono mult_le_mono1)
  ultimately have d: "(k * m) div 5 = m" by simp
  have "5 * ((k * m) div 5) + (k * m) mod 5 = k * m" by (rule mult_div_mod_eq)
  with d have "5 * m + (k * m) mod 5 = k * m" by simp
  moreover have "k * m \<le> 5 * m" using assms(1) by (intro mult_le_mono1)
  ultimately show False using assms(2) by simp
qed

lemma quantile_fifth:
  assumes "k \<le> 5"
  shows "quantile fl s (of_nat k / 5) = quintile_edge fl s k"
proof -
  define m where "m = length s - 1"
  define lo where "lo = (k * m) div 5"
  define j where "j = (k * m) mod 5"
  have q: "quantile fl s (of_nat k / 5) =
      (if (of_nat j :: rat) / 5 = 0 then s ! lo
       else fl (s ! lo + (s ! min (lo + 1) m - s ! lo) * (of_nat j / 5)))"
    unfolding quantile_def Let_def m_def[symmetric] fifth_position lo_def j_def by (rule refl)
  have e: "quintile_edge fl s k =
      (if j = 0 then s ! lo else fl (s ! lo + (s ! (lo + 1) - s ! lo) * (of_nat j / 5)))"
    unfolding quintile_edge_def Let_def m_def[symmetric] lo_def j_def by (rule refl)
  show ?thesis
  proof (cases "j = 0")
    case True
    then show ?thesis unfolding q e by simp
  next
    case False
    then have "lo < m" unfolding lo_def j_def using assms by (intro fifth_position_below)
    then have "min (lo + 1) m = lo + 1" by simp
    then show ?thesis unfolding q e using False by simp
  qed
qed

lemma length_qcut_bins: "length (qcut_bins fl s q) = q + 1"
  by (simp add: qcut_bins_def)

lemma nth_qcut_bins:
  assumes "k \<le> 5"
  shows "qcut_bins fl s 5 ! k = quintile_edge fl s k"
proof -
  have "k < length [0..<5 + 1]" using assms by simp
  then have "qcut_bins fl s 5 ! k = quantile fl s (of_nat ([0..<5 + 1] ! k) / of_nat 5)"
    unfolding qcut_bins_def by (rule nth_map)
  moreover have "[0..<5 + 1] ! k = k" using assms by (simp del: upt_Suc)
  ultimately have "qcut_bins fl s 5 ! k = quantile fl s (of_nat k / 5)"
    by (simp only: of_nat_numeral)
  then show ?thesis by (simp only: quantile_fifth[OF assms])
qed

lemma qcut_bins_first: "qcut_bins fl s 5 ! 0 = s ! 0"
proof -
  have "qcut_bins fl s 5 ! 0 = quintile_edge fl s 0" by (rule nth_qcut_bins) simp
  then show ?thesis by (simp add: quintile_edge_def)
qed

lemma qcut_bins_last: "qcut_bins fl s 5 ! 5 = s ! (length s - 1)"
proof -
  have "qcut_bins fl s 5 ! 5 = quintile_edge fl s 5" by (rule nth_qcut_bins) simp
  then show ?thesis by (simp add: quintile_edge_def)
qed

lemma qcut_bins_single_value:
  assumes "s \<noteq> []" "\<forall>v \<in> set s. v = c"
  shows "\<not> distinct (qcut_bins fl s 5)"
proof
  assume d: "distinct (qcut_bins fl s 5)"
  have "s ! 0 \<in> set s" "s ! (length s - 1) \<in> set s"
    using assms(1) by (simp_all add: nth_mem)
  with assms(2) have "s ! 0 = c" "s ! (length s - 1) = c" by blast+
  then have "qcut_bins fl s 5 ! 0 = qcut_bins fl s 5 ! 5"
    by (simp only: qcut_bins_first qcut_bins_last)
  moreover have "(0::nat) < length (qcut_bins fl s 5)" "(5::nat) < length (qcut_bins fl s 5)"
    by (simp_all add: length_qcut_bins)
  ultimately have "(0::nat) = 5" using d by (simp only: nth_eq_iff_index_eq)
  then show False by simp
qed




lemma nth_ranks:
  assumes "i < n"
  shows "map (of_nat :: nat \<Rightarrow> rat) [1..<Suc n] ! i = of_nat i + 1"
proof -
  have "[1..<Suc n] = map Suc [0..<n]"
    by (simp only: map_Suc_upt One_nat_def)
  then have "map (of_nat :: nat \<Rightarrow> rat) [1..<Suc n] = map (\<lambda>i. of_nat i + 1) [0..<n]"
    by (simp only: map_map comp_def of_nat_Suc add.commute)
  then show ?thesis using assms by simp
qed

lemma quintile_edge_ranks:
  assumes "1 \<le> n" "k \<le> 5"
  shows "quintile_edge fl (map of_nat [1..<Suc n]) k =
     (if (k * (n - 1)) mod 5 = 0 then 1 + of_nat k * of_nat (n - 1) / 5
      else fl (1 + of_nat k * of_nat (n - 1) / 5))"
proof -
  define s where "s = map (of_nat :: nat \<Rightarrow> rat) [1..<Suc n]"
  define m where "m = n - 1"
  define lo where "lo = (k * m) div 5"
  define j where "j = (k * m) mod 5"
  have len: "length s - 1 = m" by (simp add: s_def m_def)
  have n: "n = m + 1" using assms(1) by (simp add: m_def)
  have e: "quintile_edge fl s k =
      (if j = 0 then s ! lo else fl (s ! lo + (s ! (lo + 1) - s ! lo) * (of_nat j / 5)))"
    unfolding quintile_edge_def Let_def len lo_def j_def by (rule refl)
  have nth: "s ! i = of_nat i + 1" if "i < n" for i
    unfolding s_def using that by (rule nth_ranks)
  have "(of_nat (k * m) :: rat) = of_nat (5 * lo + j)"
    unfolding lo_def j_def by (simp only: mult_div_mod_eq)
  then have pos: "(of_nat k :: rat) * of_nat m / 5 = of_nat lo + of_nat j / 5"
    by simp
  have lo_le: "lo \<le> m"
  proof -
    have "(k * m) div 5 \<le> (5 * m) div 5" using assms(2) by (intro div_le_mono mult_le_mono1)
    then show ?thesis by (simp add: lo_def)
  qed
  show ?thesis
  proof (cases "j = 0")
    case True
    have "s ! lo = of_nat lo + 1" using lo_le n by (intro nth) simp
    with True pos show ?thesis
      unfolding s_def[symmetric] m_def[symmetric] j_def[symmetric] e by simp
  next
    case False
    then have "lo < m" unfolding lo_def j_def using assms(2) by (intro fifth_position_below)
    then have "s ! lo = of_nat lo + 1" "s ! (lo + 1) = of_nat (lo + 1) + 1"
      using n by (simp_all add: nth)
    then have "s ! lo + (s ! (lo + 1) - s ! lo) * (of_nat j / 5) = 1 + (of_nat lo + of_nat j / 5)"
      by simp
    then have "s ! lo + (s ! (lo + 1) - s ! lo) * (of_nat j / 5) = 1 + of_nat k * of_nat m / 5"
      by (simp only: pos)
    then show ?thesis
      unfolding s_def[symmetric] m_def[symmetric] j_def[symmetric] e using False by simp
  qed
qed

lemma distinct_qcut_bins_ranks:
  assumes n: "2 \<le> n"
    and acc: "\<forall>x. 1 \<le> x \<and> x \<le> of_nat n \<longrightarrow> \<bar>fl x - x\<bar> < 1 / 10"
  shows "distinct (qcut_bins fl (map of_nat [1..<Suc n]) 5)"
proof -
  define v where "v k = 1 + (of_nat k :: rat) * of_nat (n - 1) / 5" for k
  define e where "e k = quintile_edge fl (map of_nat [1..<Suc n]) k" for k
  have n1: "1 \<le> n" using n by simp
  have near: "\<bar>e k - v k\<bar> < 1 / 10" if k: "k \<le> 5" for k
  proof -
    have "(of_nat k :: rat) * of_nat (n - 1) \<le> 5 * of_nat (n - 1)"
      using k by (intro mult_right_mono) simp_all
    then have "v k \<le> 1 + of_nat (n - 1)" by (simp add: v_def)
    also have "\<dots> = of_nat n" using n1 by (simp add: of_nat_diff)
    finally have "v k \<le> of_nat n" .
    moreover have "1 \<le> v k" by (simp add: v_def)
    ultimately have "\<bar>fl (v k) - v k\<bar> < 1 / 10" using acc by blast
    moreover have "e k = (if (k * (n - 1)) mod 5 = 0 then v k else fl (v k))"
      unfolding e_def v_def using n1 k by (rule quintile_edge_ranks)
    ultimately show ?thesis by simp
  qed
  have step: "e i < e j" if ij: "i < j" "j \<le> 5" for i j
  proof -
    define w where "w = (of_nat (n - 1) :: rat)"
    have w1: "1 \<le> w" unfolding w_def using n by (simp add: of_nat_diff)
    have "(of_nat i :: rat) + 1 \<le> of_nat j"
    proof -
      have "Suc i \<le> j" using ij(1) by simp
      then have "(of_nat (Suc i) :: rat) \<le> of_nat j" by (simp only: of_nat_le_iff)
      then show ?thesis by simp
    qed
    then have "(of_nat i + 1) * w \<le> of_nat j * w"
      using w1 by (intro mult_right_mono) simp_all
    then have "of_nat i * w + 1 \<le> of_nat j * w"
      using w1 by (simp add: algebra_simps)
    then have "(1 + of_nat i * w / 5) + 1 / 5 \<le> 1 + of_nat j * w / 5" by simp
    then have "v i + 1 / 5 \<le> v j" unfolding v_def w_def .
    moreover have "\<bar>e i - v i\<bar> < 1 / 10" using ij by (intro near) simp
    moreover have "\<bar>e j - v j\<bar> < 1 / 10" using ij by (intro near) simp
    ultimately show ?thesis by linarith
  qed
  have "i = j" if "i < 6" "j < 6" "qcut_bins fl (map of_nat [1..<Suc n]) 5 ! i
      = qcut_bins fl (map of_nat [1..<Suc n]) 5 ! j" for i j
  proof -
    from that have i5: "i \<le> 5" and j5: "j \<le> 5" by simp_all
    from that(3) have eq: "e i = e j"
      unfolding e_def by (simp only: nth_qcut_bins[OF i5] nth_qcut_bins[OF j5])
    show ?thesis
    proof (rule ccontr)
      assume "i \<noteq> j"
      then consider "i < j" | "j < i" by linarith
      then show False
      proof cases
        case 1
        from step[OF 1 j5] eq show False by simp
      next
        case 2
        from step[OF 2 i5] eq show False by simp
      qed
    qed
  qed
  then show ?thesis
    unfolding distinct_conv_nth length_qcut_bins by (simp del: upt_Suc) blast
qed

lemma exact_accurate: "\<bar>exact x - x\<bar> < 1 / 10"
  by (simp add: exact_def)


subsection \<open>Labels\<close>

lemma searchsorted_left_le: "searchsorted_left bins v \<le> length bins"
  by (simp add: searchsorted_left_def length_takeWhile_le)








lemma qcut_errors: "qcut fl x q labels = Inl e \<Longrightarrow> e = ValueError"
  by (auto simp: qcut_def Let_def split: if_splits)

lemma astype_int_Inr:
  assumes "astype_int col = Inr ys"
  shows "col = map Some ys"
proof -
  from assms have "None \<notin> set col" "ys = map the col"
    by (auto simp: astype_int_def split: if_splits)
  then show ?thesis by (induction col arbitrary: ys) auto
qed

lemma astype_int_errors: "astype_int col = Inl e \<Longrightarrow> e = ValueError"
  by (auto simp: astype_int_def split: if_splits)

lemma score_columns_errors: "score_columns fl rfm = Inl e \<Longrightarrow> e = ValueError"
  by (auto simp: score_columns_def split: sum.splits dest: qcut_errors astype_int_errors)

lemma score_columns_Inr:
  assumes "score_columns fl rfm = Inr (r, f, m)"
  shows "qcut fl (map (map_option of_int \<circ> Recency) rfm) 5 labels_best_low = Inr (map Some r)
    \<and> qcut fl (map Some (rank_first (map Frequency rfm))) 5 labels_best_high = Inr (map Some f)
    \<and> qcut fl (map (Some \<circ> Monetary) rfm) 5 labels_best_high = Inr (map Some m)"
  using assms by (auto simp: score_columns_def split: sum.splits dest!: astype_int_Inr)








lemma calculate_rfm_metrics_errors: "calculate_rfm_metrics fl df = Inl e \<Longrightarrow> e = ValueError"
  by (auto simp: calculate_rfm_metrics_def Let_def split: sum.splits dest: score_columns_errors)






lemma example_seven_aggregate:
  "rfm_aggregate example_seven =
     [\<lparr>rfm_customer_unique_id = ''U1'', Recency = Some 7, Frequency = 1, Monetary = 1000\<rparr>,
      \<lparr>rfm_customer_unique_id = ''U2'', Recency = Some 6, Frequency = 1, Monetary = 10\<rparr>,
      \<lparr>rfm_customer_unique_id = ''U3'', Recency = Some 5, Frequency = 2, Monetary = 20\<rparr>,
      \<lparr>rfm_customer_unique_id = ''U4'', Recency = Some 4, Frequency = 1, Monetary = 30\<rparr>,
      \<lparr>rfm_customer_unique_id = ''U5'', Recency = Some 3, Frequency = 1, Monetary = 40\<rparr>,
      \<lparr>rfm_customer_unique_id = ''U6'', Recency = Some 2, Frequency = 3, Monetary = 50\<rparr>,
      \<lparr>rfm_customer_unique_id = ''U7'', Recency = Some 1, Frequency = 1, Monetary = 60\<rparr>]"
  by code_simp




text \<open>
  The groups come in the order of the keys, and the order of the groups decides tied
  ranks: identifiers read as integers are ordered numerically, identifiers read as text
  are ordered as text.
\<close>

lemma example_ids_scoring:
  "map_sum id (map (\<lambda>r. (rfm_customer_unique_id r, Frequency r, F_Score r)))
       (calculate_rfm_metrics exact (example_ids (10 :: int) 9)) = Inr [(9, 1, 1), (10, 1, 5)]"
  "map_sum id (map (\<lambda>r. (rfm_customer_unique_id r, Frequency r, F_Score r)))
       (calculate_rfm_metrics exact (example_ids ''10'' ''9'')) = Inr [(''10'', 1, 1), (''9'', 1, 5)]"
  by code_simp+

subsection \<open>Failure of the cut\<close>

lemma sort_Nil_iff: "sort xs = [] \<longleftrightarrow> xs = []"
  by (metis length_sort length_0_conv)

lemma qcut_Inl_iff:
  "qcut fl x q labels = Inl ValueError
     \<longleftrightarrow> dropna x = [] \<or> \<not> distinct (qcut_bins fl (sort (dropna x)) q) \<or> length labels \<noteq> q"
  by (auto simp: qcut_def Let_def sort_Nil_iff length_qcut_bins)

lemma qcut_single_value:
  assumes "\<forall>v \<in> set (dropna x). v = c"
  shows "qcut fl x 5 labels = Inl ValueError"
proof (cases "dropna x = []")
  case True
  then show ?thesis by (simp add: qcut_Inl_iff)
next
  case False
  then have "sort (dropna x) \<noteq> []" by (simp add: sort_Nil_iff)
  moreover have "\<forall>v \<in> set (sort (dropna x)). v = c" using assms by simp
  ultimately have "\<not> distinct (qcut_bins fl (sort (dropna x)) 5)"
    by (rule qcut_bins_single_value)
  then show ?thesis by (simp add: qcut_Inl_iff)
qed

lemma card_le_1_all_eq:
  assumes "card (set xs) \<le> 1" "a \<in> set xs" "b \<in> set xs"
  shows "a = b"
  using assms by (metis List.finite_set card_le_Suc0_iff_eq One_nat_def)

lemma score_columns_single_recency:
  assumes "card (set (map Recency rfm)) \<le> 1"
  shows "score_columns fl rfm = Inl ValueError"
proof -
  let ?x = "map (map_option (of_int :: int \<Rightarrow> rat) \<circ> Recency) rfm"
  have eq: "a = b" if "a \<in> set (map Recency rfm)" "b \<in> set (map Recency rfm)" for a b
    using assms that by (rule card_le_1_all_eq)
  have "\<exists>c. \<forall>v \<in> set (dropna ?x). v = c"
  proof (cases "dropna ?x")
    case Nil
    show ?thesis unfolding Nil by simp
  next
    case (Cons c cs)
    then have "c \<in> set (dropna ?x)" by simp
    then have "Some c \<in> set ?x" by (simp add: set_dropna)
    then obtain g where g: "g \<in> set rfm" "Some c = map_option of_int (Recency g)"
      by auto
    have "v = c" if "v \<in> set (dropna ?x)" for v
    proof -
      from that have "Some v \<in> set ?x" by (simp add: set_dropna)
      then obtain g' where g': "g' \<in> set rfm" "Some v = map_option of_int (Recency g')"
        by auto
      from g(1) g'(1) have "Recency g = Recency g'" by (intro eq) simp_all
      with g(2) g'(2) have "Some v = Some c" by (simp only:)
      then show ?thesis by simp
    qed
    then show ?thesis by blast
  qed
  then obtain c where "\<forall>v \<in> set (dropna ?x). v = c" ..
  then have "qcut fl ?x 5 labels_best_low = Inl ValueError" by (rule qcut_single_value)
  then show ?thesis by (simp add: score_columns_def)
qed

lemma score_columns_single_monetary:
  assumes "card (set (map Monetary rfm)) \<le> 1"
  shows "score_columns fl rfm = Inl ValueError"
proof -
  let ?x = "map (Some \<circ> Monetary) rfm"
  have eq: "a = b" if "a \<in> set (map Monetary rfm)" "b \<in> set (map Monetary rfm)" for a b
    using assms that by (rule card_le_1_all_eq)
  have dm: "dropna ?x = map Monetary rfm"
    using dropna_map_Some[of "map Monetary rfm"] by simp
  have "\<exists>c. \<forall>v \<in> set (dropna ?x). v = c"
  proof (cases "map Monetary rfm")
    case Nil
    show ?thesis unfolding dm Nil by simp
  next
    case (Cons c cs)
    then have "c \<in> set (map Monetary rfm)" by simp
    then have "\<forall>v \<in> set (map Monetary rfm). v = c" using eq by blast
    then show ?thesis unfolding dm by blast
  qed
  then obtain c where "\<forall>v \<in> set (dropna ?x). v = c" ..
  then have q: "qcut fl ?x 5 labels_best_high = Inl ValueError" by (rule qcut_single_value)
  show ?thesis
  proof (cases "score_columns fl rfm")
    case (Inl e)
    then show ?thesis using score_columns_errors by blast
  next
    case (Inr t)
    obtain r f m where "t = (r, f, m)" by (cases t) auto
    with Inr score_columns_Inr[of fl rfm r f m] q show ?thesis by simp
  qed
qed

lemma calculate_rfm_metrics_Inl:
  "score_columns fl (rfm_aggregate df) = Inl e \<Longrightarrow> calculate_rfm_metrics fl df = Inl e"
  by (simp add: calculate_rfm_metrics_def)

lemma frequency_cut_succeeds:
  assumes len: "2 \<le> length col" and labels: "length labels = 5"
    and acc: "\<forall>x. 1 \<le> x \<and> x \<le> of_nat (length col) \<longrightarrow> \<bar>fl x - x\<bar> < 1 / 10"
  shows "qcut fl (map Some (rank_first col)) 5 labels
     = Inr (map (cut_label (qcut_bins fl (map of_nat [1..<Suc (length col)]) 5) labels) (rank_first col))"
proof -
  have s: "sort (dropna (map Some (rank_first col))) = map of_nat [1..<Suc (length col)]"
    by (simp only: dropna_map_Some sort_rank_first)
  have ne: "map (of_nat :: nat \<Rightarrow> rat) [1..<Suc (length col)] \<noteq> []"
    using len by (auto simp del: upt_Suc)
  have d: "distinct (qcut_bins fl (map of_nat [1..<Suc (length col)]) 5)"
    using len acc by (rule distinct_qcut_bins_ranks)
  show ?thesis
    unfolding qcut_def Let_def s using ne d labels
    by (simp add: comp_def length_qcut_bins del: upt_Suc)
qed

lemma frequency_cut_fails:
  assumes "length col \<le> 1"
  shows "qcut fl (map Some (rank_first col)) 5 labels = Inl ValueError"
proof (rule qcut_single_value)
  have "set (sort (rank_first col)) \<subseteq> {1}"
    unfolding sort_rank_first using assms by (cases "length col") auto
  then show "\<forall>v \<in> set (dropna (map Some (rank_first col))). v = 1"
    by (auto simp: dropna_map_Some)
qed

lemma distinct_rank_first: "distinct (rank_first col)"
proof -
  have "distinct (map (of_nat :: nat \<Rightarrow> rat) [1..<Suc (length col)])"
    by (simp add: distinct_map del: upt_Suc)
  then have "distinct (sort (rank_first col))" by (simp only: sort_rank_first)
  then show ?thesis by simp
qed

lemma example_scoring: "calculate_rfm_metrics exact example_cleaned = Inr example_scored"
  by code_simp

text \<open>
  Claim C6, as stated, fails: two customers with two distinct values of Recency and of
  Monetary (fewer than five) are scored without any error.
\<close>

theorem scoring_two_customers_succeeds:
  "card (set (map Recency (rfm_aggregate example_cleaned))) = 2
   \<and> card (set (map Monetary (rfm_aggregate example_cleaned))) = 2
   \<and> calculate_rfm_metrics exact example_cleaned = Inr example_scored"
  by (simp add: example_aggregate example_scoring)

text \<open>
  Claim C6, amended. If Recency or Monetary takes at most one distinct value over the
  customers (in particular for a single customer or none), scoring fails with
  \<open>ValueError\<close> and returns no table, whatever the rounding. The Frequency ranks are
  pairwise distinct; with at least two customers their cut does not fail, provided the
  rounding moves no number between 1 and the number of customers by a tenth or more (the
  quintile edges of the ranks are written out, and lie at least a fifth apart before
  rounding); with a single customer or none the cut of the ranks fails too.
\<close>

theorem scoring_fails_on_single_value:
  "(card (set (map Recency (rfm_aggregate df))) \<le> 1 \<or> card (set (map Monetary (rfm_aggregate df))) \<le> 1
      \<longrightarrow> calculate_rfm_metrics fl df = Inl ValueError)
   \<and> distinct (rank_first col)
   \<and> (2 \<le> length col \<and> length labels = 5
        \<and> (\<forall>x. 1 \<le> x \<and> x \<le> of_nat (length col) \<longrightarrow> \<bar>fl x - x\<bar> < 1 / 10)
        \<longrightarrow> qcut fl (map Some (rank_first col)) 5 labels
            = Inr (map (cut_label (qcut_bins fl (map of_nat [1..<Suc (length col)]) 5) labels) (rank_first col)))
   \<and> (1 \<le> length col
        \<longrightarrow> (\<forall>k \<le> 5. qcut_bins fl (map of_nat [1..<Suc (length col)]) 5 ! k =
               (if (k * (length col - 1)) mod 5 = 0 then 1 + of_nat k * of_nat (length col - 1) / 5
                else fl (1 + of_nat k * of_nat (length col - 1) / 5))))
   \<and> (length col \<le> 1 \<longrightarrow> qcut fl (map Some (rank_first col)) 5 labels = Inl ValueError)"
proof (intro conjI impI allI)
  assume "card (set (map Recency (rfm_aggregate df))) \<le> 1 \<or> card (set (map Monetary (rfm_aggregate df))) \<le> 1"
  then have "score_columns fl (rfm_aggregate df) = Inl ValueError"
    using score_columns_single_recency score_columns_single_monetary by blast
  then show "calculate_rfm_metrics fl df = Inl ValueError" by (rule calculate_rfm_metrics_Inl)
next
  show "distinct (rank_first col)" by (rule distinct_rank_first)
next
  assume "2 \<le> length col \<and> length labels = 5
        \<and> (\<forall>x. 1 \<le> x \<and> x \<le> of_nat (length col) \<longrightarrow> \<bar>fl x - x\<bar> < 1 / 10)"
  then have "2 \<le> length col" "length labels = 5"
    "\<forall>x. 1 \<le> x \<and> x \<le> of_nat (length col) \<longrightarrow> \<bar>fl x - x\<bar> < 1 / 10" by simp_all
  then show "qcut fl (map Some (rank_first col)) 5 labels
            = Inr (map (cut_label (qcut_bins fl (map of_nat [1..<Suc (length col)]) 5) labels) (rank_first col))"
    by (rule frequency_cut_succeeds)
next
  fix k :: nat
  assume "1 \<le> length col" "k \<le> 5"
  then show "qcut_bins fl (map of_nat [1..<Suc (length col)]) 5 ! k =
               (if (k * (length col - 1)) mod 5 = 0 then 1 + of_nat k * of_nat (length col - 1) / 5
                else fl (1 + of_nat k * of_nat (length col - 1) / 5))"
    by (simp only: nth_qcut_bins quintile_edge_ranks)
next
  assume "length col \<le> 1"
  then show "qcut fl (map Some (rank_first col)) 5 labels = Inl ValueError"
    by (rule frequency_cut_fails)
qed

lemma example_single_aggregate:
  "rfm_aggregate example_single =
     [\<lparr>rfm_customer_unique_id = ''U1'', Recency = Some 1, Frequency = 1, Monetary = 110\<rparr>]"
  by code_simp

theorem scoring_fails_on_single_value_witness:
  "card (set (map Recency (rfm_aggregate example_single))) \<le> 1
   \<and> calculate_rfm_metrics exact example_single = Inl ValueError
   \<and> 2 \<le> length [1, 1 :: int] \<and> length labels_best_high = 5
   \<and> qcut exact (map Some (rank_first [1, 1])) 5 labels_best_high = Inr [Some 1, Some 5]
   \<and> qcut_bins exact (map of_nat [1..<Suc (length [1, 1 :: int])]) 5 ! 2 = 7 / 5
   \<and> length [1 :: int] \<le> 1
   \<and> qcut exact (map Some (rank_first [1])) 5 labels_best_high = Inl ValueError"
proof -
  note th = scoring_fails_on_single_value[where df = example_single and col = "[1, 1]"
      and labels = labels_best_high and fl = exact]
  note th1 = scoring_fails_on_single_value[where df = example_single and col = "[1]"
      and labels = labels_best_high and fl = exact]
  have c: "card (set (map Recency (rfm_aggregate example_single))) \<le> 1"
    by (simp add: example_single_aggregate)
  with th have fail: "calculate_rfm_metrics exact example_single = Inl ValueError" by blast
  have l: "2 \<le> length [1, 1 :: int]" "length labels_best_high = 5"
    by (simp_all add: labels_best_high_def)
  have a: "\<forall>x. 1 \<le> x \<and> x \<le> of_nat (length [1, 1 :: int]) \<longrightarrow> \<bar>exact x - x\<bar> < 1 / 10"
    by (simp add: exact_def)
  from th l a have "qcut exact (map Some (rank_first [1, 1])) 5 labels_best_high
       = Inr (map (cut_label (qcut_bins exact (map of_nat [1..<Suc (length [1, 1 :: int])]) 5) labels_best_high)
               (rank_first [1, 1]))"
    by blast
  also have "\<dots> = Inr [Some 1, Some 5]" by code_simp
  finally have ok: "qcut exact (map Some (rank_first [1, 1])) 5 labels_best_high = Inr [Some 1, Some 5]" .
  have "1 \<le> length [1, 1 :: int]" "(2::nat) \<le> 5" by simp_all
  with th have "qcut_bins exact (map of_nat [1..<Suc (length [1, 1 :: int])]) 5 ! 2 =
               (if (2 * (length [1, 1 :: int] - 1)) mod 5 = 0
                then 1 + of_nat 2 * of_nat (length [1, 1 :: int] - 1) / 5
                else exact (1 + of_nat 2 * of_nat (length [1, 1 :: int] - 1) / 5))"
    by blast
  also have "\<dots> = 7 / 5" by (simp add: exact_def)
  finally have e: "qcut_bins exact (map of_nat [1..<Suc (length [1, 1 :: int])]) 5 ! 2 = 7 / 5" .
  have l1: "length [1 :: int] \<le> 1" by simp
  with th1 have f1: "qcut exact (map Some (rank_first [1])) 5 labels_best_high = Inl ValueError"
    by blast
  from c fail l ok e l1 f1 show ?thesis by blast
qed

text \<open>
  The rounding of the edges matters: two Monetary values that are adjacent in the
  rounding have interpolated edges that round to the same number, and the cut fails,
  where exact arithmetic gives scores.
\<close>

lemma rounding_merges_edges:
  "qcut quarter (map Some [1, 5 / 4]) 5 labels_best_high = Inl ValueError"
  "qcut exact (map Some [1, 5 / 4]) 5 labels_best_high = Inr [Some 1, Some 5]"
  "quarter 1 = 1" "quarter (5 / 4) = 5 / 4"
  by code_simp+

text \<open>
  Claim C8, as stated, fails: a merged table whose only order is canceled is cleaned to
  the empty table, and \<open>calculate_rfm_metrics\<close> on it raises \<open>ValueError\<close>.
\<close>

theorem empty_table_scoring_fails:
  "clean_data example_parse example_canceled = []
   \<and> calculate_rfm_metrics exact (clean_data example_parse example_canceled) = Inl ValueError"
  by code_simp

text \<open>
  Claim C8, amended. An empty table is valid for the Cleaner, which returns the empty
  table when no row is delivered, for the grouping step, which gives the empty table of
  metrics, and for the Segmenter, which returns the empty table; the scoring step of
  \<open>calculate_rfm_metrics\<close> raises \<open>ValueError\<close> on it, whatever the rounding.
\<close>

theorem empty_table_stages:
  "clean_data parse [] = []
   \<and> ((\<forall>r \<in> set df. order_status r \<noteq> Some ''delivered'') \<longrightarrow> clean_data parse df = [])
   \<and> rfm_aggregate ([] :: (timestamp option, 'k :: linorder) cleaned list) = []
   \<and> calculate_rfm_metrics fl ([] :: (timestamp option, 'k :: linorder) cleaned list) = Inl ValueError
   \<and> segment_customers [] = []"
proof (intro conjI impI)
  show "clean_data parse [] = []"
    by (simp add: clean_data_def convert_dates_def to_datetime_def)
  show "rfm_aggregate ([] :: (timestamp option, 'k) cleaned list) = []"
    by (simp add: rfm_aggregate_def group_keys_def dropna_def)
  then have "card (set (map Recency (rfm_aggregate ([] :: (timestamp option, 'k) cleaned list)))) \<le> 1"
    by simp
  then have "score_columns fl (rfm_aggregate ([] :: (timestamp option, 'k) cleaned list)) = Inl ValueError"
    by (rule score_columns_single_recency)
  then show "calculate_rfm_metrics fl ([] :: (timestamp option, 'k) cleaned list) = Inl ValueError"
    by (rule calculate_rfm_metrics_Inl)
  show "segment_customers [] = []" by (simp add: segment_customers_def)
next
  assume a: "\<forall>r \<in> set df. order_status r \<noteq> Some ''delivered''"
  then show "clean_data parse df = []"
    by (auto simp: clean_data_rowwise List.map_filter_def filter_empty_conv cleaner_row_def)
qed

theorem empty_table_stages_witness:
  "order_status (example_canceled ! 0) \<noteq> Some ''delivered''
   \<and> clean_data example_parse example_canceled = []
   \<and> calculate_rfm_metrics exact (clean_data example_parse example_canceled) = Inl ValueError"
proof -
  note th = empty_table_stages[of example_parse example_canceled exact]
  have a: "\<forall>r \<in> set example_canceled. order_status r \<noteq> Some ''delivered''"
    by (simp add: example_canceled_def example_row_def)
  with th have e: "clean_data example_parse example_canceled = []" by blast
  from th have "calculate_rfm_metrics exact ([] :: (timestamp option, string) cleaned list) = Inl ValueError"
    by blast
  with e have f: "calculate_rfm_metrics exact (clean_data example_parse example_canceled) = Inl ValueError"
    by simp
  have "order_status (example_canceled ! 0) \<noteq> Some ''delivered''"
    by (simp add: example_canceled_def example_row_def)
  with e f show ?thesis by blast
qed

section \<open>Properties of the Segmenter\<close>

lemma categorize_cases:
  "categorize s = ''Gold'' \<or> categorize s = ''Silver'' \<or> categorize s = ''Bronze''"
  by (simp add: categorize_def)

lemma tier_rank_categorize_mono:
  "a \<le> b \<Longrightarrow> tier_rank (categorize a) \<le> tier_rank (categorize b)"
  by (simp add: categorize_def tier_rank_def)

lemma length_segment_customers: "length (segment_customers df) = length df"
  by (simp add: segment_customers_def)

lemma nth_segment_customers:
  assumes "i < length df"
  shows "rfm_scored.truncate (segment_customers df ! i) = df ! i"
    and "Segment (segment_customers df ! i) = categorize (RFM_Score_Sum (df ! i))"
  using assms by (simp_all add: segment_customers_def rfm_scored.defs rfm_segmented.defs)

text \<open>
  Claim C3. The Segmenter returns one row for each RFM Record given, in the same order:
  the record itself with its Segment, which is found from the record's score sum by
  fixed thresholds: a sum of at least 12 is Gold, a sum of at least 8 and below 12 is
  Silver, a sum below 8 is Bronze. At the boundaries, 12 is Gold, 11 and 8 are Silver
  and 7 is Bronze.
\<close>

theorem segment_thresholds:
  "length (segment_customers df) = length df
   \<and> (\<forall>i < length df.
        rfm_scored.truncate (segment_customers df ! i) = df ! i
        \<and> Segment (segment_customers df ! i) =
            (if 12 \<le> RFM_Score_Sum (df ! i) then ''Gold''
             else if 8 \<le> RFM_Score_Sum (df ! i) \<and> RFM_Score_Sum (df ! i) < 12 then ''Silver''
             else ''Bronze'')
        \<and> (RFM_Score_Sum (df ! i) < 8 \<longleftrightarrow> Segment (segment_customers df ! i) = ''Bronze'')
        \<and> (RFM_Score_Sum (df ! i) = 12 \<longrightarrow> Segment (segment_customers df ! i) = ''Gold'')
        \<and> (RFM_Score_Sum (df ! i) = 11 \<longrightarrow> Segment (segment_customers df ! i) = ''Silver'')
        \<and> (RFM_Score_Sum (df ! i) = 8 \<longrightarrow> Segment (segment_customers df ! i) = ''Silver'')
        \<and> (RFM_Score_Sum (df ! i) = 7 \<longrightarrow> Segment (segment_customers df ! i) = ''Bronze''))
   \<and> categorize s = (if 12 \<le> s then ''Gold'' else if 8 \<le> s \<and> s < 12 then ''Silver'' else ''Bronze'')
   \<and> (s < 8 \<longleftrightarrow> categorize s = ''Bronze'')
   \<and> categorize 12 = ''Gold'' \<and> categorize 11 = ''Silver''
   \<and> categorize 8 = ''Silver'' \<and> categorize 7 = ''Bronze''"
proof -
  have c: "categorize s = (if 12 \<le> s then ''Gold'' else if 8 \<le> s \<and> s < 12 then ''Silver'' else ''Bronze'')"
    for s
    by (simp add: categorize_def)
  have rows: "rfm_scored.truncate (segment_customers df ! i) = df ! i
        \<and> Segment (segment_customers df ! i) =
            (if 12 \<le> RFM_Score_Sum (df ! i) then ''Gold''
             else if 8 \<le> RFM_Score_Sum (df ! i) \<and> RFM_Score_Sum (df ! i) < 12 then ''Silver''
             else ''Bronze'')
        \<and> (RFM_Score_Sum (df ! i) < 8 \<longleftrightarrow> Segment (segment_customers df ! i) = ''Bronze'')
        \<and> (RFM_Score_Sum (df ! i) = 12 \<longrightarrow> Segment (segment_customers df ! i) = ''Gold'')
        \<and> (RFM_Score_Sum (df ! i) = 11 \<longrightarrow> Segment (segment_customers df ! i) = ''Silver'')
        \<and> (RFM_Score_Sum (df ! i) = 8 \<longrightarrow> Segment (segment_customers df ! i) = ''Silver'')
        \<and> (RFM_Score_Sum (df ! i) = 7 \<longrightarrow> Segment (segment_customers df ! i) = ''Bronze'')"
    if "i < length df" for i
    unfolding nth_segment_customers[OF that] by (simp add: categorize_def)
  have "(s < 8 \<longleftrightarrow> categorize s = ''Bronze'')
   \<and> categorize 12 = ''Gold'' \<and> categorize 11 = ''Silver''
   \<and> categorize 8 = ''Silver'' \<and> categorize 7 = ''Bronze''"
    by (simp add: categorize_def)
  with length_segment_customers[of df] rows c[of s] show ?thesis by blast
qed

lemma example_boundary_sums:
  "length example_boundary = 4"
  "map RFM_Score_Sum example_boundary = [12, 11, 8, 7]"
  by (simp_all add: example_boundary_def example_score_row_def)

theorem segment_thresholds_witness:
  "length (segment_customers example_boundary) = 4
   \<and> map RFM_Score_Sum example_boundary = [12, 11, 8, 7]
   \<and> rfm_scored.truncate (segment_customers example_boundary ! 0) = example_boundary ! 0
   \<and> Segment (segment_customers example_boundary ! 0) = ''Gold''
   \<and> Segment (segment_customers example_boundary ! 1) = ''Silver''
   \<and> Segment (segment_customers example_boundary ! 2) = ''Silver''
   \<and> Segment (segment_customers example_boundary ! 3) = ''Bronze''"
proof -
  note th = segment_thresholds[of example_boundary]
  have i: "0 < length example_boundary" "1 < length example_boundary"
    "2 < length example_boundary" "3 < length example_boundary"
    by (simp_all add: example_boundary_sums)
  have s: "RFM_Score_Sum (example_boundary ! 0) = 12" "RFM_Score_Sum (example_boundary ! 1) = 11"
    "RFM_Score_Sum (example_boundary ! 2) = 8" "RFM_Score_Sum (example_boundary ! 3) = 7"
    by (simp_all add: example_boundary_def example_score_row_def)
  from th have len: "length (segment_customers example_boundary) = 4"
    by (simp add: example_boundary_sums)
  from th i(1) have t: "rfm_scored.truncate (segment_customers example_boundary ! 0) = example_boundary ! 0"
    by blast
  from th i(1) s(1) have g: "Segment (segment_customers example_boundary ! 0) = ''Gold''" by blast
  from th i(2) s(2) have s1: "Segment (segment_customers example_boundary ! 1) = ''Silver''" by blast
  from th i(3) s(3) have s2: "Segment (segment_customers example_boundary ! 2) = ''Silver''" by blast
  from th i(4) s(4) have b: "Segment (segment_customers example_boundary ! 3) = ''Bronze''" by blast
  from len example_boundary_sums(2) t g s1 s2 b show ?thesis by blast
qed

text \<open>
  Claim C9. The Segmenter returns one row for each RFM Record given, in the same order,
  and the Segment of every record is one of Gold, Silver and Bronze. The Segment is a
  function of the score sum alone: two records with the same score sum, of the same
  table or of two tables, have the same Segment. It is monotonic: of two records, the
  one with the strictly higher score sum never has the lower-ranked tier, where Gold
  ranks above Silver and Silver above Bronze.
\<close>

theorem segment_monotone:
  "length (segment_customers df) = length df
   \<and> (\<forall>i < length df.
        rfm_scored.truncate (segment_customers df ! i) = df ! i
        \<and> (Segment (segment_customers df ! i) = ''Gold''
            \<or> Segment (segment_customers df ! i) = ''Silver''
            \<or> Segment (segment_customers df ! i) = ''Bronze''))
   \<and> (\<forall>i < length df. \<forall>j < length df'.
        (RFM_Score_Sum (df ! i) = RFM_Score_Sum (df' ! j)
           \<longrightarrow> Segment (segment_customers df ! i) = Segment (segment_customers df' ! j))
        \<and> (RFM_Score_Sum (df ! i) < RFM_Score_Sum (df' ! j)
           \<longrightarrow> tier_rank (Segment (segment_customers df ! i))
               \<le> tier_rank (Segment (segment_customers df' ! j))))
   \<and> (\<forall>a b. a < b \<longrightarrow> tier_rank (categorize a) \<le> tier_rank (categorize b))
   \<and> tier_rank ''Bronze'' < tier_rank ''Silver'' \<and> tier_rank ''Silver'' < tier_rank ''Gold''"
proof (intro conjI allI impI)
  show "length (segment_customers df) = length df" by (rule length_segment_customers)
next
  fix i assume i: "i < length df"
  show "rfm_scored.truncate (segment_customers df ! i) = df ! i"
    using i by (rule nth_segment_customers)
  show "Segment (segment_customers df ! i) = ''Gold''
            \<or> Segment (segment_customers df ! i) = ''Silver''
            \<or> Segment (segment_customers df ! i) = ''Bronze''"
    unfolding nth_segment_customers(2)[OF i] by (rule categorize_cases)
next
  fix i j assume ij: "i < length df" "j < length df'"
  {
    assume "RFM_Score_Sum (df ! i) = RFM_Score_Sum (df' ! j)"
    then show "Segment (segment_customers df ! i) = Segment (segment_customers df' ! j)"
      by (simp only: nth_segment_customers(2)[OF ij(1)] nth_segment_customers(2)[OF ij(2)])
  }
  {
    assume "RFM_Score_Sum (df ! i) < RFM_Score_Sum (df' ! j)"
    then show "tier_rank (Segment (segment_customers df ! i))
               \<le> tier_rank (Segment (segment_customers df' ! j))"
      unfolding nth_segment_customers(2)[OF ij(1)] nth_segment_customers(2)[OF ij(2)]
      by (intro tier_rank_categorize_mono) simp
  }
next
  fix a b :: int assume "a < b"
  then show "tier_rank (categorize a) \<le> tier_rank (categorize b)"
    by (simp add: tier_rank_categorize_mono)
qed (simp_all add: tier_rank_def)

lemma example_segment: "segment_customers example_scored = example_segmented"
  by code_simp

lemma example_seven_sums:
  "length example_seven_scored = 7"
  "map RFM_Score_Sum example_seven_scored = [7, 3, 8, 7, 10, 14, 14]"
  by (simp_all add: example_seven_scored_def example_score_row_def)

theorem segment_monotone_witness:
  "length (segment_customers example_seven_scored) = 7
   \<and> map RFM_Score_Sum example_seven_scored = [7, 3, 8, 7, 10, 14, 14]
   \<and> rfm_scored.truncate (segment_customers example_seven_scored ! 2) = example_seven_scored ! 2
   \<and> map Segment (segment_customers example_seven_scored)
       = [''Bronze'', ''Bronze'', ''Silver'', ''Bronze'', ''Silver'', ''Gold'', ''Gold'']
   \<and> Segment (segment_customers example_seven_scored ! 0) = Segment (segment_customers example_seven_scored ! 3)
   \<and> tier_rank (Segment (segment_customers example_seven_scored ! 0))
       \<le> tier_rank (Segment (segment_customers example_seven_scored ! 2))
   \<and> tier_rank (Segment (segment_customers example_seven_scored ! 4))
       \<le> tier_rank (Segment (segment_customers example_seven_scored ! 5))
   \<and> (7::int) < 12 \<and> tier_rank (categorize 7) \<le> tier_rank (categorize 12)"
proof -
  note th = segment_monotone[of example_seven_scored example_seven_scored]
  have i: "0 < length example_seven_scored" "2 < length example_seven_scored"
    "3 < length example_seven_scored" "4 < length example_seven_scored"
    "5 < length example_seven_scored"
    by (simp_all add: example_seven_sums)
  have s: "RFM_Score_Sum (example_seven_scored ! 0) = RFM_Score_Sum (example_seven_scored ! 3)"
    "RFM_Score_Sum (example_seven_scored ! 0) < RFM_Score_Sum (example_seven_scored ! 2)"
    "RFM_Score_Sum (example_seven_scored ! 4) < RFM_Score_Sum (example_seven_scored ! 5)"
    by (simp_all add: example_seven_scored_def example_score_row_def)
  from th have len: "length (segment_customers example_seven_scored) = 7"
    by (simp add: example_seven_sums)
  from th i(2) have t: "rfm_scored.truncate (segment_customers example_seven_scored ! 2) = example_seven_scored ! 2"
    by blast
  from th i(1,3) s(1) have e: "Segment (segment_customers example_seven_scored ! 0)
      = Segment (segment_customers example_seven_scored ! 3)"
    by blast
  from th i(1,2) s(2) have m1: "tier_rank (Segment (segment_customers example_seven_scored ! 0))
       \<le> tier_rank (Segment (segment_customers example_seven_scored ! 2))"
    by blast
  from th i(4,5) s(3) have m2: "tier_rank (Segment (segment_customers example_seven_scored ! 4))
       \<le> tier_rank (Segment (segment_customers example_seven_scored ! 5))"
    by blast
  have segs: "map Segment (segment_customers example_seven_scored)
       = [''Bronze'', ''Bronze'', ''Silver'', ''Bronze'', ''Silver'', ''Gold'', ''Gold'']"
    by code_simp
  have "(7::int) < 12" by simp
  moreover from th this have "tier_rank (categorize 7) \<le> tier_rank (categorize 12)" by blast
  ultimately show ?thesis using len example_seven_sums(2) t segs e m1 m2 by blast
qed

section \<open>Properties of the stages on objects\<close>

lemma lookup_alloc_old:
  assumes "lookup h a \<noteq> None"
  shows "lookup (fst (alloc h f)) a = lookup h a"
  using assms by (simp add: lookup_def alloc_def nth_append split: if_splits)

lemma lookup_alloc_new:
  "lookup h (snd (alloc h f)) = None" "lookup (fst (alloc h f)) (snd (alloc h f)) = Some f"
  by (simp_all add: lookup_def alloc_def)

lemma lookup_assign:
  "lookup (assign h r f) a = (if a = r \<and> r < length h then Some f else lookup h a)"
  by (simp add: lookup_def assign_def)

lemma clean_data_obj_effect:
  assumes "clean_data_obj parse h df = Some (h', r)"
  shows "(\<forall>a. lookup h a \<noteq> None \<longrightarrow> lookup h' a = lookup h a)
    \<and> lookup h r = None
    \<and> (\<exists>rows. lookup h df = Some (Merged rows) \<and> lookup h' r = Some (Cleaned (clean_data parse rows)))"
proof -
  from assms obtain rows where rows: "lookup h df = Some (Merged rows)"
    and res: "alloc h (Cleaned (clean_data parse rows)) = (h', r)"
    by (auto simp: clean_data_obj_def split: option.splits frame.splits)
  from res have h': "h' = fst (alloc h (Cleaned (clean_data parse rows)))"
    and r: "r = snd (alloc h (Cleaned (clean_data parse rows)))"
    by simp_all
  show ?thesis unfolding h' r using rows by (simp add: lookup_alloc_old lookup_alloc_new)
qed

lemma calculate_rfm_metrics_obj_effect:
  assumes "calculate_rfm_metrics_obj fl h df = Some (h', res)"
  shows "(\<forall>a. lookup h a \<noteq> None \<longrightarrow> lookup h' a = lookup h a)
    \<and> (\<exists>rows. lookup h df = Some (Cleaned rows)
          \<and> (case res of
                Inl e \<Rightarrow> calculate_rfm_metrics fl rows = Inl e \<and> h' = h
              | Inr r \<Rightarrow> lookup h r = None
                  \<and> (\<exists>rfm. calculate_rfm_metrics fl rows = Inr rfm \<and> lookup h' r = Some (Scored rfm))))"
proof -
  from assms obtain rows where rows: "lookup h df = Some (Cleaned rows)"
    and res: "(case calculate_rfm_metrics fl rows of
                  Inl e \<Rightarrow> (h, Inl e)
                | Inr rfm \<Rightarrow> (let (h', r) = alloc h (Scored rfm) in (h', Inr r))) = (h', res)"
    by (auto simp: calculate_rfm_metrics_obj_def split: option.splits frame.splits)
  show ?thesis
  proof (cases "calculate_rfm_metrics fl rows")
    case (Inl e)
    with res rows show ?thesis by auto
  next
    case (Inr rfm)
    with res have h': "h' = fst (alloc h (Scored rfm))"
      and r: "res = Inr (snd (alloc h (Scored rfm)))"
      by (auto simp: case_prod_beta)
    show ?thesis unfolding h' r using rows Inr by (simp add: lookup_alloc_old lookup_alloc_new)
  qed
qed

lemma segment_customers_obj_effect:
  assumes "segment_customers_obj h rfm_df = Some (h', r)"
  shows "r = rfm_df
    \<and> (\<exists>rows. lookup h rfm_df = Some (Scored rows)
          \<and> lookup h' rfm_df = Some (Segmented (segment_customers rows)))
    \<and> (\<forall>a. a \<noteq> rfm_df \<longrightarrow> lookup h' a = lookup h a)"
proof (cases "lookup h rfm_df")
  case None
  with assms show ?thesis by (simp add: segment_customers_obj_def)
next
  case (Some fr)
  show ?thesis
  proof (cases fr)
    case (Scored rows)
    with Some have rows: "lookup h rfm_df = Some (Scored rows)" by simp
    with assms have "Some (assign h rfm_df (Segmented (segment_customers rows)), rfm_df) = Some (h', r)"
      by (auto simp: segment_customers_obj_def)
    then have h': "h' = assign h rfm_df (Segmented (segment_customers rows))"
      and r: "r = rfm_df"
      by blast+
    from rows have lt: "rfm_df < length h" by (simp add: lookup_def split: if_splits)
    have "lookup h' rfm_df = Some (Segmented (segment_customers rows))"
      unfolding h' using lt by (simp add: lookup_assign)
    moreover have "\<forall>a. a \<noteq> rfm_df \<longrightarrow> lookup h' a = lookup h a"
      unfolding h' by (simp add: lookup_assign)
    ultimately show ?thesis using r rows by blast
  qed (use assms Some in \<open>simp_all add: segment_customers_obj_def\<close>)
qed

text \<open>
  Claim C10, as stated, fails for the Segmenter: after the call the object the caller
  passed holds the table with the new column \<open>Segment\<close>, and the returned reference
  is the caller's own.
\<close>

theorem segmenter_mutates_argument:
  "lookup [Scored example_scored] 0 = Some (Scored example_scored)
   \<and> segment_customers_obj [Scored example_scored] 0 = Some ([Segmented example_segmented], 0)
   \<and> lookup [Segmented example_segmented] 0 = Some (Segmented example_segmented)"
  by (simp add: lookup_def segment_customers_obj_def assign_def example_segment)

text \<open>
  Claim C10, amended. The Cleaner and the Aggregator treat their input as an immutable
  snapshot: every table object that exists before the call, the argument included, is
  unchanged after it, and the result is a new object (the Aggregator changes nothing at
  all when it raises). The Segmenter assigns the new column to the object it receives and
  returns that same object; every other object is unchanged.
\<close>

theorem stage_frame_effects:
  "(clean_data_obj parse h df = Some (h1, r1) \<longrightarrow>
      (\<forall>a. lookup h a \<noteq> None \<longrightarrow> lookup h1 a = lookup h a)
      \<and> lookup h r1 = None
      \<and> (\<exists>rows. lookup h df = Some (Merged rows) \<and> lookup h1 r1 = Some (Cleaned (clean_data parse rows))))
   \<and> (calculate_rfm_metrics_obj fl h df = Some (h2, res) \<longrightarrow>
      (\<forall>a. lookup h a \<noteq> None \<longrightarrow> lookup h2 a = lookup h a)
      \<and> (\<exists>rows. lookup h df = Some (Cleaned rows)
            \<and> (case res of
                  Inl e \<Rightarrow> calculate_rfm_metrics fl rows = Inl e \<and> h2 = h
                | Inr r \<Rightarrow> lookup h r = None
                    \<and> (\<exists>rfm. calculate_rfm_metrics fl rows = Inr rfm \<and> lookup h2 r = Some (Scored rfm)))))
   \<and> (segment_customers_obj h df = Some (h3, r3) \<longrightarrow>
      r3 = df
      \<and> (\<exists>rows. lookup h df = Some (Scored rows)
            \<and> lookup h3 df = Some (Segmented (segment_customers rows)))
      \<and> (\<forall>a. a \<noteq> df \<longrightarrow> lookup h3 a = lookup h a))"
  using clean_data_obj_effect[of parse h df h1 r1]
    calculate_rfm_metrics_obj_effect[of fl h df h2 res]
    segment_customers_obj_effect[of h df h3 r3]
  by blast

theorem stage_frame_effects_witness:
  "clean_data_obj example_parse example_heap 0 = Some (example_heap @ [Cleaned example_cleaned], 3)
   \<and> lookup (example_heap @ [Cleaned example_cleaned]) 0 = lookup example_heap 0
   \<and> lookup example_heap 0 \<noteq> None
   \<and> calculate_rfm_metrics_obj exact example_heap 1 = Some (example_heap @ [Scored example_scored], Inr 3)
   \<and> lookup (example_heap @ [Scored example_scored]) 1 = lookup example_heap 1
   \<and> lookup example_heap 1 \<noteq> None
   \<and> segment_customers_obj example_heap 2 = Some (example_heap[2 := Segmented example_segmented], 2)
   \<and> lookup (example_heap[2 := Segmented example_segmented]) 1 = lookup example_heap 1
   \<and> lookup (example_heap[2 := Segmented example_segmented]) 2 = Some (Segmented example_segmented)"
proof -
  have c: "clean_data_obj example_parse example_heap 0 = Some (example_heap @ [Cleaned example_cleaned], 3)"
    by (simp add: clean_data_obj_def lookup_def example_heap_def alloc_def example_clean)
  have l0: "lookup example_heap 0 \<noteq> None" by (simp add: lookup_def example_heap_def)
  from stage_frame_effects[where parse = example_parse and h = example_heap and df = 0
      and ?h1.0 = "example_heap @ [Cleaned example_cleaned]" and ?r1.0 = 3] c l0
  have c': "lookup (example_heap @ [Cleaned example_cleaned]) 0 = lookup example_heap 0"
    by blast
  have m: "calculate_rfm_metrics_obj exact example_heap 1 = Some (example_heap @ [Scored example_scored], Inr 3)"
    by (simp add: calculate_rfm_metrics_obj_def lookup_def example_heap_def alloc_def example_scoring)
  have l1: "lookup example_heap 1 \<noteq> None" by (simp add: lookup_def example_heap_def)
  from stage_frame_effects[where fl = exact and h = example_heap and df = 1
      and ?h2.0 = "example_heap @ [Scored example_scored]" and res = "Inr 3"] m l1
  have m': "lookup (example_heap @ [Scored example_scored]) 1 = lookup example_heap 1"
    by blast
  have s: "segment_customers_obj example_heap 2 = Some (example_heap[2 := Segmented example_segmented], 2)"
    by (simp add: segment_customers_obj_def lookup_def example_heap_def assign_def example_segment)
  from stage_frame_effects[where h = example_heap and df = 2
      and ?h3.0 = "example_heap[2 := Segmented example_segmented]" and ?r3.0 = 2] s
  have s': "lookup (example_heap[2 := Segmented example_segmented]) 1 = lookup example_heap 1"
    by auto
  have s'': "lookup (example_heap[2 := Segmented example_segmented]) 2 = Some (Segmented example_segmented)"
    by (simp add: lookup_def example_heap_def)
  from c c' l0 m m' l1 s s' s'' show ?thesis by blast
qed

end
